theory Spec2Isabelle
  imports Main "HOL-Library.Word"
begin

unbundle bit_operations_syntax

section \<open>EveryIBus: a slave-side iBUS telemetry responder\<close>

text \<open>
  A shallow embedding of \<^verbatim>\<open>src/EveryIBus.h\<close> and \<^verbatim>\<open>src/EveryIBus.cpp\<close>.
  The C++ object becomes a record, every member function a HOL function that takes the
  object (and, where it talks to a serial port, the ports) and returns the updated
  ones. \<^verbatim>\<open>uint8_t\<close>, \<^verbatim>\<open>uint16_t\<close> and \<^verbatim>\<open>uint32_t\<close> are words of
  that width, so \<open>+\<close> and \<open>-\<close> wrap as they do in C++.
\<close>

type_synonym u8 = "8 word"
type_synonym u16 = "16 word"
type_synonym u32 = "32 word"

subsection \<open>Constants of EveryIBus.h\<close>

definition IBUS_SENSOR_INTERNAL_VOLTAGE :: u8 where
  "IBUS_SENSOR_INTERNAL_VOLTAGE = 0x00"

definition IBUS_SENSOR_TEMPERATURE :: u8 where
  "IBUS_SENSOR_TEMPERATURE = 0x01"

definition IBUS_SENSOR_RPM :: u8 where
  "IBUS_SENSOR_RPM = 0x02"

definition IBUS_SENSOR_EXTERNAL_VOLTAGE :: u8 where
  "IBUS_SENSOR_EXTERNAL_VOLTAGE = 0x03"

definition IBUS_CMD_DISCOVER :: u8 where
  "IBUS_CMD_DISCOVER = 0x80"

definition IBUS_CMD_TYPE :: u8 where
  "IBUS_CMD_TYPE = 0x90"

definition IBUS_CMD_MEASUREMENT :: u8 where
  "IBUS_CMD_MEASUREMENT = 0xA0"

definition MAX_SENSORS :: nat where
  "MAX_SENSORS = 4"

subsection \<open>Serial ports\<close>

text \<open>
  Modelled from the spec: \<^verbatim>\<open>HardwareSerial\<close> belongs to the Arduino core, not to this
  repository. The spec (section 6) gives its contract: a count of buffered bytes, a
  destructive read of the oldest buffered byte, a write of one byte, and a flush that
  waits until the written bytes have left. A port is the received bytes not yet read
  (\<open>rx\<close>, oldest first) and all bytes written so far (\<open>tx\<close>, oldest first). Arduino's
  \<^verbatim>\<open>read()\<close> returns an \<^verbatim>\<open>int\<close>, \<open>-1\<close> when nothing is buffered. No byte arrives
  while a member function runs: arrival is a step of its own (\<open>Receive\<close> below).
\<close>

record transport =
  rx :: "u8 list"
  tx :: "u8 list"

definition available :: "transport \<Rightarrow> int" where
  "available t = int (length (rx t))"

definition serial_read :: "transport \<Rightarrow> int \<times> transport" where
  "serial_read t = (case rx t of [] \<Rightarrow> (- 1, t) | b # bs \<Rightarrow> (uint b, t\<lparr>rx := bs\<rparr>))"

definition serial_write :: "transport \<Rightarrow> u8 \<Rightarrow> transport" where
  "serial_write t b = t\<lparr>tx := tx t @ [b]\<rparr>"

definition serial_flush :: "transport \<Rightarrow> transport" where
  "serial_flush t = t"

text \<open>
  The program names two port objects. \<^verbatim>\<open>Serial\<close> is the global port that all
  diagnostic output goes to. \<^verbatim>\<open>begin\<close> takes the port of the bus by reference:
  \<^verbatim>\<open>Serial1\<close> by default (it stands here for every port other than \<^verbatim>\<open>Serial\<close>), but
  an application may also hand it \<^verbatim>\<open>Serial\<close> itself, and then the bus and the
  diagnostic output share one port. So the ports are a store, from the port objects to
  their states, and \<^verbatim>\<open>_serial\<close> holds the address of one of them.
\<close>

datatype port = Serial | Serial1

type_synonym ports = "port \<Rightarrow> transport"

definition port_available :: "ports \<Rightarrow> port \<Rightarrow> int" where
  "port_available w p = available (w p)"

definition port_read :: "ports \<Rightarrow> port \<Rightarrow> int \<times> ports" where
  "port_read w p = (case serial_read (w p) of (b, t) \<Rightarrow> (b, w(p := t)))"

definition port_write :: "ports \<Rightarrow> port \<Rightarrow> u8 \<Rightarrow> ports" where
  "port_write w p b = w(p := serial_write (w p) b)"

definition port_flush :: "ports \<Rightarrow> port \<Rightarrow> ports" where
  "port_flush w p = w(p := serial_flush (w p))"

text \<open>
  The printing functions of the Arduino core's \<^verbatim>\<open>Print\<close>, as used on \<^verbatim>\<open>Serial\<close>:
  a text is written as its bytes; a number is written in the given base, most
  significant digit first, without leading zeros and with upper-case letters
  (\<^verbatim>\<open>printNumber\<close>, which takes a base below 2 as 10); \<^verbatim>\<open>println\<close> ends the line with
  carriage return and line feed.
\<close>

definition Serial_write :: "ports \<Rightarrow> u8 list \<Rightarrow> ports" where
  "Serial_write w bs = foldl (\<lambda>w' b. port_write w' Serial b) w bs"

definition digit_char :: "nat \<Rightarrow> u8" where
  "digit_char c = (if c < 10 then of_nat (c + 48) else of_nat (c + 65 - 10))"

function printNumber :: "nat \<Rightarrow> nat \<Rightarrow> u8 list" where
  "printNumber n base =
     (let b = (if base < 2 then 10 else base);
          c = n mod b;
          n' = n div b
      in (if n' = 0 then [] else printNumber n' b) @ [digit_char c])"
  by pat_completeness auto
termination
  by (relation "measure (\<lambda>(n, base). n)") (auto intro!: div_less_dividend gr0I)

declare printNumber.simps [simp del]

definition Serial_print :: "ports \<Rightarrow> string \<Rightarrow> ports" where
  "Serial_print w s = Serial_write w (map of_char s)"

definition Serial_print_number :: "ports \<Rightarrow> nat \<Rightarrow> nat \<Rightarrow> ports" where
  "Serial_print_number w n base = Serial_write w (printNumber n base)"

definition Serial_println :: "ports \<Rightarrow> ports" where
  "Serial_println w = Serial_write w [0x0D, 0x0A]"

subsection \<open>Data\<close>

text \<open>
  \<^verbatim>\<open>struct Sensor { uint8_t type; uint16_t value; bool hasValue; }\<close>. The field
  \<^verbatim>\<open>value\<close> is named \<open>value_u16\<close> here.
\<close>

record Sensor =
  type :: u8
  value_u16 :: u16
  hasValue :: bool

text \<open>
  The private members of \<^verbatim>\<open>class EveryIBus\<close>, without their leading underscore.
  \<open>serial\<close> is the pointer \<^verbatim>\<open>_serial\<close>: \<open>None\<close> is \<^verbatim>\<open>nullptr\<close>, \<open>Some p\<close>
  is the address of the port \<open>p\<close> handed to \<^verbatim>\<open>begin\<close>. \<open>sensors\<close> is the array
  \<^verbatim>\<open>Sensor _sensors[MAX_SENSORS]\<close>; the predicate \<open>wf\<close> below says that it has
  its \<open>MAX_SENSORS\<close> entries.
\<close>

record EveryIBus =
  serial :: "port option"
  sensors :: "Sensor list"
  currentSensorIndex :: u8
  anyDiscovered :: bool
  packetCount :: u32
  responseCount :: u32
  debug :: bool

definition wf :: "EveryIBus \<Rightarrow> bool" where
  "wf e = (length (sensors e) = MAX_SENSORS)"

text \<open>
  What C++ leaves undefined is a value of the model: calling through the null
  \<^verbatim>\<open>_serial\<close>, and reading \<^verbatim>\<open>_sensors\<close> outside its bounds.
\<close>

datatype fault = NullPointer | OutOfBounds

definition sensor_at :: "Sensor list \<Rightarrow> int \<Rightarrow> fault + Sensor" where
  "sensor_at ss i = (if 0 \<le> i \<and> i < int (length ss) then Inr (ss ! nat i) else Inl OutOfBounds)"

subsection \<open>Diagnostic output\<close>

definition debugPrint :: "EveryIBus \<Rightarrow> ports \<Rightarrow> string \<Rightarrow> ports" where
  "debugPrint e w message = (if debug e then Serial_print w message else w)"

function debugPrintHex_loop :: "ports \<Rightarrow> u8 list \<Rightarrow> nat \<Rightarrow> nat \<Rightarrow> ports" where
  "debugPrintHex_loop w data len i =
     (if i < len then
        (let w1 = (if data ! i < 0x10 then Serial_print w ''0'' else w);
             w2 = Serial_print_number w1 (unat (data ! i)) 16;
             w3 = (if int i < int len - 1 then Serial_print w2 '' '' else w2)
         in debugPrintHex_loop w3 data len (i + 1))
      else w)"
  by pat_completeness auto
termination
  by (relation "measure (\<lambda>(w, data, len, i). len - i)") auto

declare debugPrintHex_loop.simps [simp del]

definition debugPrintHex :: "EveryIBus \<Rightarrow> ports \<Rightarrow> u8 list \<Rightarrow> nat \<Rightarrow> ports" where
  "debugPrintHex e w data len = (if debug e then debugPrintHex_loop w data len 0 else w)"

subsection \<open>Constructor, begin and setDebug\<close>

definition unused_sensor :: Sensor where
  "unused_sensor = \<lparr>type = 0xFF, value_u16 = 0, hasValue = False\<rparr>"

definition new_EveryIBus :: EveryIBus where
  "new_EveryIBus =
     \<lparr>serial = None,
      sensors = replicate MAX_SENSORS unused_sensor,
      currentSensorIndex = 0,
      anyDiscovered = False,
      packetCount = 0,
      responseCount = 0,
      debug = False\<rparr>"

function clearSerialBuffer :: "EveryIBus \<Rightarrow> ports \<Rightarrow> ports" where
  "clearSerialBuffer e w =
     (case serial e of
        None \<Rightarrow> w
      | Some p \<Rightarrow>
          if port_available w p \<noteq> 0 then clearSerialBuffer e (snd (port_read w p)) else w)"
  by pat_completeness auto
termination
  by (relation "measure (\<lambda>(e, w). case serial e of None \<Rightarrow> 0 | Some p \<Rightarrow> length (rx (w p)))")
     (auto simp: port_available_def available_def port_read_def serial_read_def split: list.splits)

declare clearSerialBuffer.simps [simp del]

text \<open>
  \<^verbatim>\<open>begin(HardwareSerial& serial = Serial1)\<close>. Opening the port at 115200 baud and the
  delay of 100 ms leave no trace in the model.
\<close>

definition begin_serial :: "EveryIBus \<Rightarrow> ports \<Rightarrow> port \<Rightarrow> EveryIBus \<times> ports" where
  "begin_serial e w p =
     (let e1 = e\<lparr>serial := Some p\<rparr>;
          w1 = clearSerialBuffer e1 w;
          w2 = (if debug e1 then
                  Serial_println (Serial_print w1 ''EveryIBus: Multi-sensor mode initialized'')
                else w1)
      in (e1, w2))"

definition setDebug :: "EveryIBus \<Rightarrow> bool \<Rightarrow> EveryIBus" where
  "setDebug e enable = e\<lparr>debug := enable\<rparr>"

subsection \<open>The sensor registry\<close>

function findSensorIndex_loop :: "Sensor list \<Rightarrow> u8 \<Rightarrow> nat \<Rightarrow> int" where
  "findSensorIndex_loop ss sensorType i =
     (if i < MAX_SENSORS then
        (if hasValue (ss ! i) \<and> type (ss ! i) = sensorType then int i
         else findSensorIndex_loop ss sensorType (i + 1))
      else - 1)"
  by pat_completeness auto
termination
  by (relation "measure (\<lambda>(ss, ty, i). MAX_SENSORS - i)") auto

declare findSensorIndex_loop.simps [simp del]

definition findSensorIndex :: "EveryIBus \<Rightarrow> u8 \<Rightarrow> int" where
  "findSensorIndex e sensorType = findSensorIndex_loop (sensors e) sensorType 0"

function setSensorValue_loop ::
  "EveryIBus \<Rightarrow> ports \<Rightarrow> u8 \<Rightarrow> u16 \<Rightarrow> nat \<Rightarrow> EveryIBus \<times> ports" where
  "setSensorValue_loop e w sensorType rawValue i =
     (if i < MAX_SENSORS then
        (if \<not> hasValue (sensors e ! i) then
           (e\<lparr>sensors := (sensors e)
                 [i := (sensors e ! i)\<lparr>type := sensorType, value_u16 := rawValue, hasValue := True\<rparr>]\<rparr>,
            if debug e then
              Serial_println
                (Serial_print_number
                   (Serial_print
                      (Serial_print_number (Serial_print w ''EveryIBus: Added sensor type '')
                         (unat sensorType) 10)
                      '' at index '')
                   i 10)
            else w)
         else setSensorValue_loop e w sensorType rawValue (i + 1))
      else
        (e, if debug e then
              Serial_println (Serial_print w ''EveryIBus: Warning - No free sensor slots'')
            else w))"
  by pat_completeness auto
termination
  by (relation "measure (\<lambda>(e, w, ty, v, i). MAX_SENSORS - i)") auto

declare setSensorValue_loop.simps [simp del]

definition setSensorValue :: "EveryIBus \<Rightarrow> ports \<Rightarrow> u8 \<Rightarrow> u16 \<Rightarrow> EveryIBus \<times> ports" where
  "setSensorValue e w sensorType rawValue =
     (let index = findSensorIndex e sensorType in
      if index = - 1 then setSensorValue_loop e w sensorType rawValue 0
      else
        (e\<lparr>sensors := (sensors e)[nat index := (sensors e ! nat index)\<lparr>value_u16 := rawValue\<rparr>]\<rparr>,
         w))"

text \<open>
  The four public setters are the only callers of \<^verbatim>\<open>setSensorValue\<close>, which is
  private. Three of them take a \<^verbatim>\<open>float\<close> and convert it to the raw
  \<^verbatim>\<open>uint16_t\<close> (volts times 100, degrees plus 40 times 10); that conversion is
  floating point and outside the model, so they take the converted value here.
\<close>

definition setInternalVoltage :: "EveryIBus \<Rightarrow> ports \<Rightarrow> u16 \<Rightarrow> EveryIBus \<times> ports" where
  "setInternalVoltage e w rawValue = setSensorValue e w IBUS_SENSOR_INTERNAL_VOLTAGE rawValue"

definition setExternalVoltage :: "EveryIBus \<Rightarrow> ports \<Rightarrow> u16 \<Rightarrow> EveryIBus \<times> ports" where
  "setExternalVoltage e w rawValue = setSensorValue e w IBUS_SENSOR_EXTERNAL_VOLTAGE rawValue"

definition setTemperature :: "EveryIBus \<Rightarrow> ports \<Rightarrow> u16 \<Rightarrow> EveryIBus \<times> ports" where
  "setTemperature e w rawValue = setSensorValue e w IBUS_SENSOR_TEMPERATURE rawValue"

definition setRPM :: "EveryIBus \<Rightarrow> ports \<Rightarrow> u16 \<Rightarrow> EveryIBus \<times> ports" where
  "setRPM e w rpm = setSensorValue e w IBUS_SENSOR_RPM rpm"

subsection \<open>Frames\<close>

text \<open>
  \<^verbatim>\<open>packet\<close> points to the four bytes read by \<^verbatim>\<open>handlePacket\<close>. The sum
  \<^verbatim>\<open>packet[0] + packet[1]\<close> is computed in \<^verbatim>\<open>int\<close> and is at most 510; the
  difference is stored in a \<^verbatim>\<open>uint16_t\<close>, so 16-bit arithmetic gives the same value.
  Likewise \<^verbatim>\<open>(packet[3] << 8) | packet[2]\<close> is computed in \<^verbatim>\<open>int\<close> and stored in
  a \<^verbatim>\<open>uint16_t\<close>, which keeps the 16 bits that the 16-bit shift and OR give.
\<close>

definition validatePacket :: "u8 list \<Rightarrow> bool" where
  "validatePacket packet =
     (if packet ! 0 \<noteq> 0x04 then False
      else
        (let expectedChecksum = (0xFFFF :: u16) - (ucast (packet ! 0) + ucast (packet ! 1));
             receivedChecksum = (push_bit 8 (ucast (packet ! 3)) OR ucast (packet ! 2) :: u16)
         in expectedChecksum = receivedChecksum))"

function calculateChecksum_loop :: "u8 list \<Rightarrow> nat \<Rightarrow> nat \<Rightarrow> u16 \<Rightarrow> u16" where
  "calculateChecksum_loop data len i sum_u16 =
     (if i < len then calculateChecksum_loop data len (i + 1) (sum_u16 + ucast (data ! i))
      else sum_u16)"
  by pat_completeness auto
termination
  by (relation "measure (\<lambda>(data, len, i, sum_u16). len - i)") auto

declare calculateChecksum_loop.simps [simp del]

definition calculateChecksum :: "u8 list \<Rightarrow> nat \<Rightarrow> u16" where
  "calculateChecksum data len = 0xFFFF - calculateChecksum_loop data len 0 0"

function sendPacket_loop :: "port \<Rightarrow> u8 list \<Rightarrow> nat \<Rightarrow> nat \<Rightarrow> ports \<Rightarrow> ports" where
  "sendPacket_loop p data len i w =
     (if i < len then sendPacket_loop p data len (i + 1) (port_write w p (data ! i)) else w)"
  by pat_completeness auto
termination
  by (relation "measure (\<lambda>(p, data, len, i, w). len - i)") auto

declare sendPacket_loop.simps [simp del]

definition sendPacket :: "EveryIBus \<Rightarrow> ports \<Rightarrow> u8 list \<Rightarrow> nat \<Rightarrow> ports" where
  "sendPacket e w data len =
     (case serial e of
        None \<Rightarrow> w
      | Some p \<Rightarrow> port_flush (sendPacket_loop p data len 0 w) p)"

subsection \<open>Responses\<close>

definition sendDiscoveryResponse :: "EveryIBus \<Rightarrow> ports \<Rightarrow> u8 \<Rightarrow> EveryIBus \<times> ports" where
  "sendDiscoveryResponse e w address =
     (let r0 = (0x04 :: u8);
          r1 = 0x80 OR address;
          checksum = (0xFFFF :: u16) - (ucast r0 + ucast r1);
          response = [r0, r1, ucast (checksum AND 0xFF), ucast (drop_bit 8 checksum AND 0xFF)];
          w' = sendPacket e w response 4
      in (e\<lparr>responseCount := responseCount e + 1\<rparr>, w'))"

definition handleDiscoveryCommand ::
  "EveryIBus \<Rightarrow> ports \<Rightarrow> u8 \<Rightarrow> fault + EveryIBus \<times> ports" where
  "handleDiscoveryCommand e w address =
     (let no_sensor =
            (if debug e then
               debugPrint e
                 (Serial_print_number (debugPrint e w '' -> DISCOVERY ADDR:'') (unat address) 10)
                 '' (no sensor)''
             else w)
      in if unat address \<le> MAX_SENSORS then
           (case sensor_at (sensors e) (uint address - 1) of
              Inl f \<Rightarrow> Inl f
            | Inr s \<Rightarrow>
                if hasValue s then
                  (let (e1, w1) = sendDiscoveryResponse e w address;
                       e2 = e1\<lparr>anyDiscovered := True\<rparr>;
                       w2 = (if debug e2 then
                               debugPrint e2
                                 (Serial_print_number (debugPrint e2 w1 '' -> DISCOVERY ADDR:'')
                                    (unat address) 10)
                                 '' [SENT]''
                             else w1)
                   in Inr (e2, w2))
                else Inr (e, no_sensor))
         else Inr (e, no_sensor))"

definition sendTypeResponse ::
  "EveryIBus \<Rightarrow> ports \<Rightarrow> u8 \<Rightarrow> fault + EveryIBus \<times> ports" where
  "sendTypeResponse e w address =
     (if unat address > MAX_SENSORS then Inr (e, w)
      else
        (case sensor_at (sensors e) (uint address - 1) of
           Inl f \<Rightarrow> Inl f
         | Inr s \<Rightarrow>
             if \<not> hasValue s then Inr (e, w)
             else
               (let r = [0x06, 0x90 OR address, type s, 0x02];
                    checksum = calculateChecksum r 4;
                    response = r @ [ucast (checksum AND 0xFF), ucast (drop_bit 8 checksum AND 0xFF)];
                    w1 = sendPacket e w response 6;
                    e1 = e\<lparr>responseCount := responseCount e + 1\<rparr>;
                    w2 = (if debug e1 then
                            debugPrint e1
                              (Serial_print_number (debugPrint e1 w1 '' -> TYPE ADDR:'')
                                 (unat address) 10)
                              '' [SENT]''
                          else w1)
                in Inr (e1, w2))))"

definition sendMeasurementResponse ::
  "EveryIBus \<Rightarrow> ports \<Rightarrow> u8 \<Rightarrow> fault + EveryIBus \<times> ports" where
  "sendMeasurementResponse e w address =
     (if unat address > MAX_SENSORS then Inr (e, w)
      else
        (case sensor_at (sensors e) (uint address - 1) of
           Inl f \<Rightarrow> Inl f
         | Inr s \<Rightarrow>
             if \<not> hasValue s then Inr (e, w)
             else
               (let val = value_u16 s;
                    r = [0x06, 0xA0 OR address, ucast (val AND 0xFF), ucast (drop_bit 8 val AND 0xFF)];
                    checksum = calculateChecksum r 4;
                    response = r @ [ucast (checksum AND 0xFF), ucast (drop_bit 8 checksum AND 0xFF)];
                    w1 = sendPacket e w response 6;
                    e1 = e\<lparr>responseCount := responseCount e + 1\<rparr>;
                    w2 = (if debug e1 then
                            debugPrint e1
                              (Serial_print_number (debugPrint e1 w1 '' -> MEASUREMENT ADDR:'')
                                 (unat address) 10)
                              '' [SENT]''
                          else w1)
                in Inr (e1, w2))))"

subsection \<open>The protocol step\<close>

text \<open>
  The loop \<^verbatim>\<open>for (i = 0; i < 4; i++) packet[i] = _serial->read()\<close>: each byte is
  the \<^verbatim>\<open>int\<close> returned by \<^verbatim>\<open>read()\<close> stored into a \<^verbatim>\<open>uint8_t\<close>.
\<close>

function read_packet_loop :: "port \<Rightarrow> nat \<Rightarrow> u8 list \<Rightarrow> ports \<Rightarrow> u8 list \<times> ports" where
  "read_packet_loop p i packet w =
     (if i < 4 then
        (let (b, w') = port_read w p in read_packet_loop p (i + 1) (packet @ [word_of_int b]) w')
      else (packet, w))"
  by pat_completeness auto
termination
  by (relation "measure (\<lambda>(p, i, packet, w). 4 - i)") auto

declare read_packet_loop.simps [simp del]

definition handlePacket :: "EveryIBus \<Rightarrow> ports \<Rightarrow> fault + EveryIBus \<times> ports" where
  "handlePacket e w =
     (case serial e of
        None \<Rightarrow> Inl NullPointer
      | Some p \<Rightarrow>
          (let (packet, w1) = read_packet_loop p 0 [] w;
               e1 = e\<lparr>packetCount := packetCount e + 1\<rparr>;
               w2 = (if debug e1 then debugPrintHex e1 (debugPrint e1 w1 ''RX: '') packet 4 else w1);
               r = (if validatePacket packet then
                      (let command = packet ! 1 AND 0xF0;
                           address = packet ! 1 AND 0x0F
                       in if address \<ge> 1 \<and> address \<le> 4 then
                            (if command = IBUS_CMD_DISCOVER then
                               handleDiscoveryCommand e1 w2 address
                             else if command = IBUS_CMD_TYPE then sendTypeResponse e1 w2 address
                             else if command = IBUS_CMD_MEASUREMENT then
                               sendMeasurementResponse e1 w2 address
                             else Inr (e1, w2))
                          else Inr (e1, w2))
                    else Inr (e1, w2))
           in case r of
                Inl f \<Rightarrow> Inl f
              | Inr (e2, w3) \<Rightarrow>
                  (let w4 = (if debug e2 then Serial_println w3 else w3)
                   in Inr (e2, clearSerialBuffer e2 w4))))"

definition update :: "EveryIBus \<Rightarrow> ports \<Rightarrow> fault + EveryIBus \<times> ports" where
  "update e w =
     (case serial e of
        None \<Rightarrow> Inr (e, w)
      | Some p \<Rightarrow> if port_available w p \<ge> 4 then handlePacket e w else Inr (e, w))"

subsection \<open>Runs of the public operations\<close>

text \<open>
  The operations an application can invoke, and the arrival of bytes at a port.
  \<open>SetSensorValue\<close> stands for all four setters, and allows every type byte and raw
  value where the setters pass one of the four \<open>IBUS_SENSOR\<close> types; the set
  \<open>public_sensor_types\<close> below is what they pass.
\<close>

datatype op =
  Begin port | Update | SetSensorValue u8 u16 | SetDebug bool | Receive port "u8 list"

fun step :: "op \<Rightarrow> EveryIBus \<times> ports \<Rightarrow> fault + EveryIBus \<times> ports" where
  "step (Begin p) (e, w) = Inr (begin_serial e w p)"
| "step Update (e, w) = update e w"
| "step (SetSensorValue sensorType rawValue) (e, w) = Inr (setSensorValue e w sensorType rawValue)"
| "step (SetDebug enable) (e, w) = Inr (setDebug e enable, w)"
| "step (Receive p bs) (e, w) = Inr (e, w(p := (w p)\<lparr>rx := rx (w p) @ bs\<rparr>))"

fun run :: "op list \<Rightarrow> EveryIBus \<times> ports \<Rightarrow> fault + EveryIBus \<times> ports" where
  "run [] s = Inr s"
| "run (x # xs) s = (case step x s of Inl f \<Rightarrow> Inl f | Inr s' \<Rightarrow> run xs s')"

subsection \<open>Vocabulary of the properties\<close>

text \<open>
  The request frame with a correct checksum for the header \<open>[len, cmdAddr]\<close>: the
  checksum is \<open>0xFFFF - (len + cmdAddr)\<close> in 16 bits, sent low byte first.
\<close>

definition request_frame :: "u8 \<Rightarrow> u8 \<Rightarrow> u8 list" where
  "request_frame len cmdAddr =
     (let checksum = (0xFFFF :: u16) - (ucast len + ucast cmdAddr)
      in [len, cmdAddr, ucast (checksum AND 0xFF), ucast (drop_bit 8 checksum)])"

text \<open>The occupied slots of a given type.\<close>

definition slots_of_type :: "EveryIBus \<Rightarrow> u8 \<Rightarrow> Sensor list" where
  "slots_of_type e sensorType = filter (\<lambda>s. hasValue s \<and> type s = sensorType) (sensors e)"

text \<open>
  The sensor types passed to \<^verbatim>\<open>setSensorValue\<close> during a run, in call order; the
  distinct elements of a list in the order of their first occurrence; and the types
  that the public setters pass (\<^verbatim>\<open>EveryIBus.cpp\<close>, lines 52, 57, 64 and 68).
\<close>

fun registered :: "op list \<Rightarrow> u8 list" where
  "registered [] = []"
| "registered (SetSensorValue sensorType rawValue # xs) = sensorType # registered xs"
| "registered (x # xs) = registered xs"

definition first_distinct :: "'a list \<Rightarrow> 'a list" where
  "first_distinct xs = foldl (\<lambda>acc x. if x \<in> set acc then acc else acc @ [x]) [] xs"

definition public_sensor_types :: "u8 list" where
  "public_sensor_types =
     [IBUS_SENSOR_INTERNAL_VOLTAGE, IBUS_SENSOR_EXTERNAL_VOLTAGE, IBUS_SENSOR_TEMPERATURE,
      IBUS_SENSOR_RPM]"

text \<open>
  The registry as a function of the list of occupied slots: the table is the occupied
  slots followed by unused ones, and \<open>register\<close> is what the spec asks of
  \<^verbatim>\<open>setValue\<close>: overwrite the value of the slot of this type, else occupy the next
  free slot, else do nothing. The lemmas of the registry section show that
  \<open>setSensorValue\<close> refines it.
\<close>

definition registry_of :: "Sensor list \<Rightarrow> Sensor list" where
  "registry_of occ = occ @ replicate (MAX_SENSORS - length occ) unused_sensor"

definition register :: "Sensor list \<Rightarrow> u8 \<Rightarrow> u16 \<Rightarrow> Sensor list" where
  "register occ sensorType rawValue =
     (if sensorType \<in> set (map type occ) then
        map (\<lambda>s. if type s = sensorType then s\<lparr>value_u16 := rawValue\<rparr> else s) occ
      else if length occ < MAX_SENSORS then
        occ @ [\<lparr>type = sensorType, value_u16 = rawValue, hasValue = True\<rparr>]
      else occ)"

text \<open>
  What a port has written after a step (nothing when the step has no defined result).
\<close>

definition written :: "port \<Rightarrow> fault + EveryIBus \<times> ports \<Rightarrow> u8 list" where
  "written p r = (case r of Inl f \<Rightarrow> [] | Inr (e, w) \<Rightarrow> tx (w p))"

text \<open>
  Concrete states. In \<open>idle_ports\<close> no port has received or written anything.
  \<open>example_engine\<close> is attached to \<^verbatim>\<open>Serial1\<close> and holds an RPM sensor with raw value
  4294 (address 1) and a temperature sensor with raw value \<open>0x10E8\<close> (address 2);
  \<open>full_engine\<close> also holds the two voltage sensors, so that all four slots are
  occupied. \<open>debug_engine\<close> holds the sensors of \<open>example_engine\<close>, but is attached to
  \<^verbatim>\<open>Serial\<close> and has the diagnostic output switched on.
\<close>

definition idle_ports :: ports where
  "idle_ports = (\<lambda>p. \<lparr>rx = [], tx = []\<rparr>)"

definition example_ops :: "op list" where
  "example_ops =
     [Begin Serial1, SetSensorValue IBUS_SENSOR_RPM 4294,
      SetSensorValue IBUS_SENSOR_TEMPERATURE 0x10E8]"

definition example_engine :: EveryIBus where
  "example_engine =
     \<lparr>serial = Some Serial1,
      sensors = [\<lparr>type = 0x02, value_u16 = 4294, hasValue = True\<rparr>,
                 \<lparr>type = 0x01, value_u16 = 0x10E8, hasValue = True\<rparr>,
                 unused_sensor, unused_sensor],
      currentSensorIndex = 0, anyDiscovered = False, packetCount = 0, responseCount = 0,
      debug = False\<rparr>"

definition full_ops :: "op list" where
  "full_ops =
     example_ops @ [SetSensorValue IBUS_SENSOR_INTERNAL_VOLTAGE 508,
                    SetSensorValue IBUS_SENSOR_EXTERNAL_VOLTAGE 1241]"

definition full_engine :: EveryIBus where
  "full_engine =
     example_engine\<lparr>sensors :=
       [\<lparr>type = 0x02, value_u16 = 4294, hasValue = True\<rparr>,
        \<lparr>type = 0x01, value_u16 = 0x10E8, hasValue = True\<rparr>,
        \<lparr>type = 0x00, value_u16 = 508, hasValue = True\<rparr>,
        \<lparr>type = 0x03, value_u16 = 1241, hasValue = True\<rparr>]\<rparr>"

definition debug_ops :: "op list" where
  "debug_ops =
     [Begin Serial, SetSensorValue IBUS_SENSOR_RPM 4294,
      SetSensorValue IBUS_SENSOR_TEMPERATURE 0x10E8, SetDebug True]"

definition debug_engine :: EveryIBus where
  "debug_engine = example_engine\<lparr>serial := Some Serial, debug := True\<rparr>"

section \<open>Properties\<close>

subsection \<open>Bytes and 16-bit words\<close>

lemma and_ff: "(w :: u16) AND 0xFF = take_bit 8 w"
  by (simp add: take_bit_eq_mask mask_eq_exp_minus_1)

lemma low_byte: "(ucast ((w :: u16) AND 0xFF) :: u8) = ucast w"
  by (simp add: and_ff bit_eq_iff bit_simps)

lemma high_byte: "(ucast (drop_bit 8 (w :: u16) AND 0xFF) :: u8) = ucast (drop_bit 8 w)"
  by (simp add: and_ff bit_eq_iff bit_simps)

lemma bytes_join:
  "push_bit 8 (ucast (ucast (drop_bit 8 w) :: u8)) OR ucast (ucast w :: u8) = (w :: u16)"
  by (rule bit_word_eqI) (auto simp: bit_simps)

lemma join_low: "(ucast (push_bit 8 (ucast (x :: u8)) OR ucast (y :: u8) :: u16) :: u8) = y"
  by (rule bit_word_eqI) (auto simp: bit_simps dest: bit_imp_le_length)

lemma join_high:
  "(ucast (drop_bit 8 (push_bit 8 (ucast (x :: u8)) OR ucast (y :: u8) :: u16)) :: u8) = x"
  by (rule bit_word_eqI) (auto simp: bit_simps dest: bit_imp_le_length)

lemma join_inj:
  "(push_bit 8 (ucast (a :: u8)) OR ucast (b :: u8) :: u16) = push_bit 8 (ucast c) OR ucast d
     \<longleftrightarrow> a = c \<and> b = (d :: u8)"
  by (metis join_low join_high)

lemma ucast_u8_u16_inj: "(ucast (a :: u8) :: u16) = ucast b \<longleftrightarrow> a = b"
proof
  assume "(ucast a :: u16) = ucast b"
  then have "(ucast (ucast a :: u16) :: u8) = ucast (ucast b :: u16)" by simp
  moreover have "\<And>x :: u8. (ucast (ucast x :: u16) :: u8) = x"
    by (rule bit_word_eqI) (auto simp: bit_simps)
  ultimately show "a = b" by simp
qed simp

lemma flip_bit_neq: "k < 8 \<Longrightarrow> flip_bit k (x :: u8) \<noteq> x"
  by (auto simp: bit_eq_iff bit_simps)

subsection \<open>Validation of request frames\<close>

lemma validatePacket_4:
  "validatePacket [p0, p1, p2, p3] \<longleftrightarrow>
     p0 = 0x04 \<and> (0xFFFF :: u16) - (ucast p0 + ucast p1) = push_bit 8 (ucast p3) OR ucast p2"
  by (simp add: validatePacket_def)

lemma request_frame_bytes:
  "request_frame len cmdAddr =
     [len, cmdAddr, ucast ((0xFFFF :: u16) - (ucast len + ucast cmdAddr)),
      ucast (drop_bit 8 ((0xFFFF :: u16) - (ucast len + ucast cmdAddr)))]"
  by (simp add: request_frame_def Let_def low_byte)

lemma validatePacket_request_frame: "validatePacket (request_frame len cmdAddr) \<longleftrightarrow> len = 0x04"
  by (simp add: request_frame_bytes validatePacket_4 bytes_join)

text \<open>
  C1 (as amended). A request frame \<open>[len, cmdAddr, checksum & 0xFF, checksum >> 8]\<close> with
  the correct checksum \<open>0xFFFF - (len + cmdAddr)\<close> is accepted by \<open>validatePacket\<close> when
  its length byte is \<open>0x04\<close>, and rejected for every other length byte. For every header
  (whatever its length byte), flipping any single bit \<open>k < 8\<close> of any of the four bytes
  \<open>i < 4\<close> of the correctly checksummed frame gives a frame that is rejected.
\<close>

theorem C1_validate_checksummed_frame:
  "validatePacket (request_frame 0x04 cmdAddr)
   \<and> (len \<noteq> 0x04 \<longrightarrow> \<not> validatePacket (request_frame len cmdAddr))
   \<and> (i < 4 \<and> k < 8 \<longrightarrow>
        \<not> validatePacket ((request_frame len cmdAddr)[i := flip_bit k (request_frame len cmdAddr ! i)]))"
proof -
  let ?chk = "(0xFFFF :: u16) - (ucast len + ucast cmdAddr)"
  let ?lo = "ucast ?chk :: u8" and ?hi = "ucast (drop_bit 8 ?chk) :: u8"
  have fr: "request_frame len cmdAddr = [len, cmdAddr, ?lo, ?hi]"
    by (rule request_frame_bytes)
  have joined: "?chk = push_bit 8 (ucast ?hi) OR ucast ?lo"
    by (simp add: bytes_join)
  have flipped:
    "\<not> validatePacket ((request_frame len cmdAddr)[i := flip_bit k (request_frame len cmdAddr ! i)])"
    if i: "i < 4" and k: "k < 8"
  proof -
    from i have "i = 0 \<or> i = 1 \<or> i = 2 \<or> i = 3" by arith
    then show ?thesis
    proof (elim disjE)
      assume i0: "i = 0"
      show ?thesis
      proof (cases "flip_bit k len = 0x04")
        case True
        with flip_bit_neq [OF k, of len] have "len \<noteq> 0x04" by auto
        then have "(ucast len :: u16) \<noteq> ucast (0x04 :: u8)"
          by (simp only: ucast_u8_u16_inj) simp
        then have "(0xFFFF :: u16) - (4 + ucast cmdAddr) \<noteq> ?chk" by simp
        with True i0 show ?thesis by (simp add: fr validatePacket_4 bytes_join)
      next
        case False
        with i0 show ?thesis by (simp add: fr validatePacket_4)
      qed
    next
      assume i1: "i = 1"
      from flip_bit_neq [OF k, of cmdAddr]
      have "(ucast (flip_bit k cmdAddr) :: u16) \<noteq> ucast cmdAddr"
        by (simp only: ucast_u8_u16_inj) simp
      then have "(0xFFFF :: u16) - (ucast len + ucast (flip_bit k cmdAddr)) \<noteq> ?chk" by simp
      with i1 show ?thesis by (simp add: fr validatePacket_4 bytes_join)
    next
      assume i2: "i = 2"
      have "push_bit 8 (ucast ?hi) OR ucast ?lo
              \<noteq> (push_bit 8 (ucast ?hi) OR ucast (flip_bit k ?lo) :: u16)"
        using flip_bit_neq [OF k, of ?lo] by (simp only: join_inj) simp
      with joined i2 show ?thesis by (simp add: fr validatePacket_4)
    next
      assume i3: "i = 3"
      have "push_bit 8 (ucast ?hi) OR ucast ?lo
              \<noteq> (push_bit 8 (ucast (flip_bit k ?hi)) OR ucast ?lo :: u16)"
        using flip_bit_neq [OF k, of ?hi] by (simp only: join_inj) simp
      with joined i3 show ?thesis by (simp add: fr validatePacket_4)
    qed
  qed
  show ?thesis using flipped by (simp add: validatePacket_request_frame)
qed

text \<open>
  At the header \<open>[0x04, 0x81]\<close> the frame is \<open>[0x04, 0x81, 0x7A, 0xFF]\<close>: it is accepted,
  and rejected once bit 0 of its third byte is flipped. At the header \<open>[0x06, 0x81]\<close>
  the frame is \<open>[0x06, 0x81, 0x78, 0xFF]\<close>: flipping bit 1 of the length byte gives
  \<open>0x04\<close>, and the frame is still rejected.
\<close>

theorem C1_validate_checksummed_frame_witness:
  "request_frame 0x04 0x81 = [0x04, 0x81, 0x7A, 0xFF]
   \<and> validatePacket [0x04, 0x81, 0x7A, 0xFF]
   \<and> \<not> validatePacket [0x04, 0x81, 0x7B, 0xFF]
   \<and> request_frame 0x06 0x81 = [0x06, 0x81, 0x78, 0xFF]
   \<and> \<not> validatePacket [0x06, 0x81, 0x78, 0xFF]
   \<and> \<not> validatePacket [0x04, 0x81, 0x78, 0xFF]"
  using C1_validate_checksummed_frame [of "0x81" "0x04" 2 0]
    C1_validate_checksummed_frame [of "0x81" "0x06" 0 1]
  by (simp add: request_frame_def flip_bit_eq_xor)

text \<open>
  C1 as stated fails: for the header \<open>[0x06, 0x91]\<close> the checksum is \<open>0xFF68\<close>, and the
  correctly checksummed frame \<open>[0x06, 0x91, 0x68, 0xFF]\<close> is rejected, because
  \<open>validatePacket\<close> first requires the length byte to be \<open>0x04\<close>.
\<close>

theorem C1_validate_counterexample:
  "request_frame 0x06 0x91 = [0x06, 0x91, 0x68, 0xFF]
   \<and> \<not> validatePacket (request_frame 0x06 0x91)"
  by (simp add: request_frame_def validatePacket_def)

subsection \<open>The serial ports\<close>

text \<open>
  What is written to \<^verbatim>\<open>Serial\<close> goes to its \<open>tx\<close> and leaves every other port and
  every \<open>rx\<close> alone. With a port attached, \<open>clearSerialBuffer\<close> empties the receive
  buffer of that port, the read loop takes its four oldest bytes, and \<open>sendPacket\<close>
  appends the packet to what it has written.
\<close>

lemma Serial_write_at:
  "Serial_write w bs q = (if q = Serial then (w Serial)\<lparr>tx := tx (w Serial) @ bs\<rparr> else w q)"
  unfolding Serial_write_def
  by (induction bs arbitrary: w) (simp_all add: port_write_def serial_write_def)

lemma Serial_write_eq:
  "Serial_write w bs = w(Serial := (w Serial)\<lparr>tx := tx (w Serial) @ bs\<rparr>)"
  by (rule ext) (simp add: Serial_write_at)

lemmas debug_defs =
  debugPrint_def Serial_print_def Serial_print_number_def Serial_println_def Serial_write_at

lemma Serial_write_append: "Serial_write (Serial_write w as) bs = Serial_write w (as @ bs)"
  by (simp add: Serial_write_def)

lemma Serial_write_Nil: "Serial_write w [] = w"
  by (simp add: Serial_write_def)

lemma debugPrintHex_loop_Serial: "\<exists>bs. debugPrintHex_loop w data len i = Serial_write w bs"
proof (induction w data len i rule: debugPrintHex_loop.induct)
  case (1 w data len i)
  show ?case
  proof (cases "i < len")
    case False
    then have "debugPrintHex_loop w data len i = Serial_write w []"
      by (subst debugPrintHex_loop.simps) (simp add: Serial_write_Nil)
    then show ?thesis by blast
  next
    case True
    let ?w1 = "if data ! i < 0x10 then Serial_print w ''0'' else w"
    let ?w2 = "Serial_print_number ?w1 (unat (data ! i)) 16"
    let ?w3 = "if int i < int len - 1 then Serial_print ?w2 '' '' else ?w2"
    from "1.IH" [OF True refl refl refl] obtain bs
      where rec: "debugPrintHex_loop ?w3 data len (i + 1) = Serial_write ?w3 bs"
      by blast
    have "\<exists>as. ?w1 = Serial_write w as"
    proof (cases "data ! i < 0x10")
      case True
      then have "?w1 = Serial_write w (map of_char ''0'')" by (simp add: Serial_print_def)
      then show ?thesis by blast
    next
      case False
      then have "?w1 = Serial_write w []" by (simp add: Serial_write_Nil)
      then show ?thesis by blast
    qed
    then obtain as where w1: "?w1 = Serial_write w as" by blast
    have w2: "?w2 = Serial_write w (as @ printNumber (unat (data ! i)) 16)"
      unfolding w1 by (simp add: Serial_print_number_def Serial_write_append)
    have "\<exists>cs. ?w3 = Serial_write w cs"
    proof (cases "int i < int len - 1")
      case True
      then have "?w3 = Serial_write w ((as @ printNumber (unat (data ! i)) 16) @ map of_char '' '')"
        unfolding w2 by (simp add: Serial_print_def Serial_write_append)
      then show ?thesis by blast
    next
      case False
      then have "?w3 = Serial_write w (as @ printNumber (unat (data ! i)) 16)"
        unfolding w2 by simp
      then show ?thesis by blast
    qed
    then obtain cs where w3: "?w3 = Serial_write w cs" by blast
    have "debugPrintHex_loop w data len i = debugPrintHex_loop ?w3 data len (i + 1)"
      using True by (subst debugPrintHex_loop.simps) (simp add: Let_def)
    also have "\<dots> = Serial_write w (cs @ bs)"
      unfolding rec unfolding w3 by (rule Serial_write_append)
    finally show ?thesis by blast
  qed
qed

lemma debugPrintHex_loop_other: "p \<noteq> Serial \<Longrightarrow> debugPrintHex_loop w data len i p = w p"
  using debugPrintHex_loop_Serial [of w data len i] by (auto simp: Serial_write_at)

lemma debugPrintHex_loop_rx: "rx (debugPrintHex_loop w data len i p) = rx (w p)"
  using debugPrintHex_loop_Serial [of w data len i] by (auto simp: Serial_write_at)

lemma clearSerialBuffer_at:
  "serial e = Some p \<Longrightarrow>
   clearSerialBuffer e w q = (if q = p then (w p)\<lparr>rx := []\<rparr> else w q)"
proof (induction e w rule: clearSerialBuffer.induct)
  case (1 e w)
  show ?case
  proof (cases "rx (w p)")
    case Nil
    then have "(w p)\<lparr>rx := []\<rparr> = w p" by simp
    with Nil "1.prems" show ?thesis
      by (subst clearSerialBuffer.simps) (simp add: port_available_def available_def)
  next
    case (Cons b bs)
    with 1 show ?thesis
      by (subst clearSerialBuffer.simps)
        (simp add: port_available_def available_def port_read_def serial_read_def)
  qed
qed

lemma clearSerialBuffer_attached:
  "serial e = Some p \<Longrightarrow> clearSerialBuffer e w = w(p := (w p)\<lparr>rx := []\<rparr>)"
  by (rule ext) (simp add: clearSerialBuffer_at)

lemma clearSerialBuffer_detached: "serial e = None \<Longrightarrow> clearSerialBuffer e w = w"
  by (simp add: clearSerialBuffer.simps)

lemma read_packet_loop_4:
  "rx (w p) = p0 # p1 # p2 # p3 # rest \<Longrightarrow>
   read_packet_loop p 0 [] w = ([p0, p1, p2, p3], w(p := (w p)\<lparr>rx := rest\<rparr>))"
  by (simp add: port_read_def serial_read_def read_packet_loop.simps [of _ 0]
      read_packet_loop.simps [of _ "Suc 0"] read_packet_loop.simps [of _ "Suc (Suc 0)"]
      read_packet_loop.simps [of _ "Suc (Suc (Suc 0))"]
      read_packet_loop.simps [of _ "Suc (Suc (Suc (Suc 0)))"])

lemma sendPacket_loop_at:
  "i \<le> len \<Longrightarrow> len \<le> length data \<Longrightarrow>
   sendPacket_loop p data len i w q =
     (if q = p then (w p)\<lparr>tx := tx (w p) @ drop i (take len data)\<rparr> else w q)"
proof (induction p data len i w rule: sendPacket_loop.induct)
  case (1 p data len i w)
  show ?case
  proof (cases "i < len")
    case True
    let ?w = "port_write w p (data ! i)"
    from True "1.prems" have dr: "drop i (take len data) = data ! i # drop (i + 1) (take len data)"
      by (simp add: Cons_nth_drop_Suc [symmetric])
    have rec: "sendPacket_loop p data len (i + 1) ?w q =
        (if q = p then (?w p)\<lparr>tx := tx (?w p) @ drop (i + 1) (take len data)\<rparr> else ?w q)"
      by (rule "1.IH") (use True "1.prems" in simp_all)
    have "sendPacket_loop p data len i w q = sendPacket_loop p data len (i + 1) ?w q"
      using True by (subst sendPacket_loop.simps) simp
    also note rec
    also have "(if q = p then (?w p)\<lparr>tx := tx (?w p) @ drop (i + 1) (take len data)\<rparr> else ?w q)
        = (if q = p then (w p)\<lparr>tx := tx (w p) @ drop i (take len data)\<rparr> else w q)"
      by (simp add: dr port_write_def serial_write_def)
    finally show ?thesis .
  next
    case False
    with 1 show ?thesis by (subst sendPacket_loop.simps) simp
  qed
qed

lemma sendPacket_attached:
  "serial e = Some p \<Longrightarrow> len = length data \<Longrightarrow>
   sendPacket e w data len = w(p := (w p)\<lparr>tx := tx (w p) @ data\<rparr>)"
  by (rule ext) (simp add: sendPacket_def port_flush_def serial_flush_def sendPacket_loop_at)

lemma calculateChecksum_4:
  "calculateChecksum [b0, b1, b2, b3] 4 = 0xFFFF - (ucast b0 + ucast b1 + ucast b2 + ucast b3)"
  by (simp add: calculateChecksum_def calculateChecksum_loop.simps [of _ _ 0]
      calculateChecksum_loop.simps [of _ _ "Suc 0"] calculateChecksum_loop.simps [of _ _ "Suc (Suc 0)"]
      calculateChecksum_loop.simps [of _ _ "Suc (Suc (Suc 0))"]
      calculateChecksum_loop.simps [of _ _ "Suc (Suc (Suc (Suc 0)))"])

subsection \<open>Dispatch\<close>

lemma address_cases: "(1 :: u8) \<le> a \<Longrightarrow> a \<le> 4 \<Longrightarrow> a = 1 \<or> a = 2 \<or> a = 3 \<or> a = 4"
proof -
  assume 1: "1 \<le> a" and 2: "a \<le> 4"
  then have "1 \<le> unat a" "unat a \<le> 4" by (simp_all add: word_le_nat_alt)
  then have "unat a = 1 \<or> unat a = 2 \<or> unat a = 3 \<or> unat a = 4" by arith
  then show ?thesis
    by (auto simp: word_unat_eq_iff)
qed

lemma sensor_at_address:
  "wf e \<Longrightarrow> 1 \<le> a \<Longrightarrow> a \<le> 4 \<Longrightarrow>
   sensor_at (sensors e) (uint (a :: u8) - 1) = Inr (sensors e ! (unat a - 1))"
  using address_cases [of a] by (auto simp: sensor_at_def wf_def MAX_SENSORS_def)

lemma nibbles:
  "a = 1 \<or> a = 2 \<or> a = 3 \<or> a = (4 :: u8) \<Longrightarrow>
   (0x80 OR a) AND 0x0F = a \<and> (0x80 OR a) AND 0xF0 = 0x80
   \<and> (0x90 OR a) AND 0x0F = a \<and> (0x90 OR a) AND 0xF0 = 0x90
   \<and> (0xA0 OR a) AND 0x0F = a \<and> (0xA0 OR a) AND 0xF0 = 0xA0"
  by auto

lemma length_ge_4:
  "4 \<le> length xs \<Longrightarrow> \<exists>p0 p1 p2 p3 rest. xs = p0 # p1 # p2 # p3 # rest"
  by (auto simp: numeral_eq_Suc Suc_le_length_iff)

lemma handlePacket_frame:
  assumes "serial e = Some p" and "rx (w p) = p0 # p1 # p2 # p3 # rest"
  shows "handlePacket e w =
     (let e1 = e\<lparr>packetCount := packetCount e + 1\<rparr>;
          w1 = w(p := (w p)\<lparr>rx := rest\<rparr>);
          w2 = (if debug e then debugPrintHex_loop (Serial_print w1 ''RX: '') [p0, p1, p2, p3] 4 0
                else w1);
          r = (if validatePacket [p0, p1, p2, p3] then
                 (if p1 AND 0x0F \<ge> 1 \<and> p1 AND 0x0F \<le> 4 then
                    (if p1 AND 0xF0 = 0x80 then handleDiscoveryCommand e1 w2 (p1 AND 0x0F)
                     else if p1 AND 0xF0 = 0x90 then sendTypeResponse e1 w2 (p1 AND 0x0F)
                     else if p1 AND 0xF0 = 0xA0 then sendMeasurementResponse e1 w2 (p1 AND 0x0F)
                     else Inr (e1, w2))
                  else Inr (e1, w2))
               else Inr (e1, w2))
      in case r of
           Inl f \<Rightarrow> Inl f
         | Inr (e2, w3) \<Rightarrow>
             Inr (e2, clearSerialBuffer e2 (if debug e2 then Serial_println w3 else w3)))"
  using assms
  by (simp add: handlePacket_def read_packet_loop_4 Let_def IBUS_CMD_DISCOVER_def
      IBUS_CMD_TYPE_def IBUS_CMD_MEASUREMENT_def debugPrint_def debugPrintHex_def)

lemma update_frame:
  "serial e = Some p \<Longrightarrow> rx (w p) = p0 # p1 # p2 # p3 # rest \<Longrightarrow> update e w = handlePacket e w"
  by (simp add: update_def port_available_def available_def)


lemma sendTypeResponse_at:
  assumes att: "serial e = Some p" and quiet: "\<not> debug e \<or> p \<noteq> Serial"
    and wf: "wf e" and a1: "1 \<le> a" and a4: "a \<le> 4"
  shows "\<exists>w'. sendTypeResponse e w a =
           Inr (if hasValue (sensors e ! (unat a - 1))
                then e\<lparr>responseCount := responseCount e + 1\<rparr> else e, w')
         \<and> w' p =
           (if hasValue (sensors e ! (unat a - 1))
            then (w p)\<lparr>tx := tx (w p) @
                   [0x06, 0x90 OR a, type (sensors e ! (unat a - 1)), 0x02,
                    ucast (calculateChecksum [0x06, 0x90 OR a, type (sensors e ! (unat a - 1)), 0x02] 4),
                    ucast (drop_bit 8
                      (calculateChecksum [0x06, 0x90 OR a, type (sensors e ! (unat a - 1)), 0x02] 4))]\<rparr>
            else w p)"
proof -
  have le: "unat a \<le> MAX_SENSORS" using address_cases [OF a1 a4] by (auto simp: MAX_SENSORS_def)
  show ?thesis
    using quiet le
    by (auto simp: sendTypeResponse_def Let_def
        sensor_at_address [OF wf a1 a4] sendPacket_attached [OF att] debug_defs low_byte high_byte)
qed

lemma sendMeasurementResponse_at:
  assumes att: "serial e = Some p" and quiet: "\<not> debug e \<or> p \<noteq> Serial"
    and wf: "wf e" and a1: "1 \<le> a" and a4: "a \<le> 4"
    and occ: "hasValue (sensors e ! (unat a - 1))"
    and v: "value_u16 (sensors e ! (unat a - 1)) = v"
  shows "\<exists>w'. sendMeasurementResponse e w a =
           Inr (e\<lparr>responseCount := responseCount e + 1\<rparr>, w')
         \<and> w' p =
            (w p)\<lparr>tx := tx (w p) @
                   [0x06, 0xA0 OR a, ucast v, ucast (drop_bit 8 v),
                    ucast (calculateChecksum [0x06, 0xA0 OR a, ucast v, ucast (drop_bit 8 v)] 4),
                    ucast (drop_bit 8
                      (calculateChecksum [0x06, 0xA0 OR a, ucast v, ucast (drop_bit 8 v)] 4))]\<rparr>"
proof -
  have le: "unat a \<le> MAX_SENSORS" using address_cases [OF a1 a4] by (auto simp: MAX_SENSORS_def)
  show ?thesis
    using quiet le occ v
    by (auto simp: sendMeasurementResponse_def Let_def
        sensor_at_address [OF wf a1 a4] sendPacket_attached [OF att] debug_defs low_byte high_byte)
qed

lemma received_at:
  assumes quiet: "\<not> debug e \<or> p \<noteq> Serial"
  shows "(if debug e then debugPrintHex_loop (Serial_print (w(p := t)) ''RX: '') packet 4 0
          else w(p := t)) p = t"
  using quiet by (auto simp: debugPrintHex_loop_other debug_defs)

text \<open>
  For an address in \<open>1..4\<close> the three handlers read the table inside its bounds, and
  leave the registry, the port pointer and the diagnostic flag as they were. So a step
  of an engine whose table has its four entries never reaches undefined behaviour.
\<close>

lemma handleDiscoveryCommand_ok:
  "wf e \<Longrightarrow> 1 \<le> a \<Longrightarrow> a \<le> 4 \<Longrightarrow>
   \<exists>e' w'. handleDiscoveryCommand e w a = Inr (e', w') \<and> serial e' = serial e
     \<and> sensors e' = sensors e \<and> debug e' = debug e"
  by (simp add: handleDiscoveryCommand_def sendDiscoveryResponse_def sensor_at_address Let_def)

lemma sendTypeResponse_ok:
  "wf e \<Longrightarrow> 1 \<le> a \<Longrightarrow> a \<le> 4 \<Longrightarrow>
   \<exists>e' w'. sendTypeResponse e w a = Inr (e', w') \<and> serial e' = serial e
     \<and> sensors e' = sensors e \<and> debug e' = debug e"
  by (simp add: sendTypeResponse_def sensor_at_address Let_def)

lemma sendMeasurementResponse_ok:
  "wf e \<Longrightarrow> 1 \<le> a \<Longrightarrow> a \<le> 4 \<Longrightarrow>
   \<exists>e' w'. sendMeasurementResponse e w a = Inr (e', w') \<and> serial e' = serial e
     \<and> sensors e' = sensors e \<and> debug e' = debug e"
  by (simp add: sendMeasurementResponse_def sensor_at_address Let_def)

lemma handlePacket_ok:
  assumes att: "serial e = Some p" and wf: "wf e" and rx: "rx (w p) = p0 # p1 # p2 # p3 # rest"
  shows "\<exists>e' w'. handlePacket e w = Inr (e', w') \<and> serial e' = Some p
           \<and> sensors e' = sensors e \<and> debug e' = debug e \<and> rx (w' p) = []"
proof -
  let ?e1 = "e\<lparr>packetCount := packetCount e + 1\<rparr>"
  let ?a = "p1 AND 0x0F"
  have wf1: "wf ?e1" using wf by (simp add: wf_def)
  have fin: "\<exists>e' w'. (case r of Inl f \<Rightarrow> Inl f
        | Inr (e2, w3) \<Rightarrow> Inr (e2, clearSerialBuffer e2 (if debug e2 then Serial_println w3 else w3)))
          = Inr (e', w')
       \<and> serial e' = Some p \<and> sensors e' = sensors e \<and> debug e' = debug e \<and> rx (w' p) = []"
    if "\<exists>e2 w2. r = Inr (e2, w2) \<and> serial e2 = serial ?e1 \<and> sensors e2 = sensors ?e1
          \<and> debug e2 = debug ?e1" for r
    using that att by (auto simp: clearSerialBuffer_at)
  show ?thesis
    unfolding handlePacket_frame [where w = w, OF att rx] Let_def
    apply (rule fin)
    using handleDiscoveryCommand_ok [OF wf1, of ?a] sendTypeResponse_ok [OF wf1, of ?a]
      sendMeasurementResponse_ok [OF wf1, of ?a]
    apply auto
    done
qed

lemma update_ok:
  assumes wf: "wf e"
  shows "\<exists>e' w'. update e w = Inr (e', w') \<and> serial e' = serial e \<and> sensors e' = sensors e
           \<and> debug e' = debug e"
proof (cases "serial e")
  case None
  then show ?thesis by (simp add: update_def)
next
  case (Some p)
  show ?thesis
  proof (cases "4 \<le> length (rx (w p))")
    case True
    then obtain p0 p1 p2 p3 rest where rx: "rx (w p) = p0 # p1 # p2 # p3 # rest"
      using length_ge_4 [of "rx (w p)"] by auto
    with True Some handlePacket_ok [where w = w, OF Some wf rx] show ?thesis
      by (auto simp: update_def port_available_def available_def)
  next
    case False
    with Some show ?thesis by (auto simp: update_def port_available_def available_def)
  qed
qed

subsection \<open>The registry loops on a table of four slots\<close>

lemma findSensorIndex_loop_4:
  "findSensorIndex_loop [s0, s1, s2, s3] ty 0 =
     (if hasValue s0 \<and> type s0 = ty then 0
      else if hasValue s1 \<and> type s1 = ty then 1
      else if hasValue s2 \<and> type s2 = ty then 2
      else if hasValue s3 \<and> type s3 = ty then 3
      else - 1)"
  by (simp add: MAX_SENSORS_def findSensorIndex_loop.simps [of _ _ 0]
      findSensorIndex_loop.simps [of _ _ "Suc 0"] findSensorIndex_loop.simps [of _ _ "Suc (Suc 0)"]
      findSensorIndex_loop.simps [of _ _ "Suc (Suc (Suc 0))"]
      findSensorIndex_loop.simps [of _ _ "Suc (Suc (Suc (Suc 0)))"])

lemma setSensorValue_loop_4:
  "sensors e = [s0, s1, s2, s3] \<Longrightarrow>
   fst (setSensorValue_loop e w ty v 0) =
     (if \<not> hasValue s0 then
        e\<lparr>sensors := [s0\<lparr>type := ty, value_u16 := v, hasValue := True\<rparr>, s1, s2, s3]\<rparr>
      else if \<not> hasValue s1 then
        e\<lparr>sensors := [s0, s1\<lparr>type := ty, value_u16 := v, hasValue := True\<rparr>, s2, s3]\<rparr>
      else if \<not> hasValue s2 then
        e\<lparr>sensors := [s0, s1, s2\<lparr>type := ty, value_u16 := v, hasValue := True\<rparr>, s3]\<rparr>
      else if \<not> hasValue s3 then
        e\<lparr>sensors := [s0, s1, s2, s3\<lparr>type := ty, value_u16 := v, hasValue := True\<rparr>]\<rparr>
      else e)"
  by (simp add: MAX_SENSORS_def setSensorValue_loop.simps [of _ _ _ _ 0]
      setSensorValue_loop.simps [of _ _ _ _ "Suc 0"] setSensorValue_loop.simps [of _ _ _ _ "Suc (Suc 0)"]
      setSensorValue_loop.simps [of _ _ _ _ "Suc (Suc (Suc 0))"]
      setSensorValue_loop.simps [of _ _ _ _ "Suc (Suc (Suc (Suc 0)))"])

lemma replicate_4: "replicate 4 x = [x, x, x, x]"
  by (simp add: numeral_eq_Suc)

lemma length_le_4_cases:
  "length xs \<le> 4 \<Longrightarrow>
   xs = [] \<or> (\<exists>a. xs = [a]) \<or> (\<exists>a b. xs = [a, b]) \<or> (\<exists>a b c. xs = [a, b, c])
   \<or> (\<exists>a b c d. xs = [a, b, c, d])"
  by (cases xs; cases "tl xs"; cases "tl (tl xs)"; cases "tl (tl (tl xs))"; cases "tl (tl (tl (tl xs)))") auto

lemma wf_sensors: "wf e \<Longrightarrow> \<exists>s0 s1 s2 s3. sensors e = [s0, s1, s2, s3]"
  using length_le_4_cases [of "sensors e"] by (auto simp: wf_def MAX_SENSORS_def)

text \<open>
  \<open>setSensorValue\<close> changes nothing of the engine but the table, and nothing of the
  ports but what \<^verbatim>\<open>Serial\<close> has written; with the diagnostic output off it leaves
  the ports alone.
\<close>

lemma setSensorValue_loop_engine:
  "\<exists>ss. fst (setSensorValue_loop e w ty v i) = e\<lparr>sensors := ss\<rparr>"
proof (induction e w ty v i rule: setSensorValue_loop.induct)
  case (1 e w ty v i)
  have triv: "e = e\<lparr>sensors := sensors e\<rparr>" by simp
  show ?case
  proof (cases "i < MAX_SENSORS")
    case False
    then have "fst (setSensorValue_loop e w ty v i) = e"
      by (subst setSensorValue_loop.simps) simp
    with triv show ?thesis by metis
  next
    case True
    show ?thesis
    proof (cases "hasValue (sensors e ! i)")
      case False
      with True show ?thesis by (subst setSensorValue_loop.simps) auto
    next
      case hv: True
      with True have "setSensorValue_loop e w ty v i = setSensorValue_loop e w ty v (i + 1)"
        by (subst setSensorValue_loop.simps) simp
      with "1.IH" [OF True] hv show ?thesis by simp
    qed
  qed
qed

lemma setSensorValue_loop_ports:
  "\<exists>bs. snd (setSensorValue_loop e w ty v i) = Serial_write w bs
         \<and> (\<not> debug e \<longrightarrow> bs = [])"
proof (induction e w ty v i rule: setSensorValue_loop.induct)
  case (1 e w ty v i)
  have nil: "w = Serial_write w []" by (simp add: Serial_write_Nil)
  show ?case
  proof (cases "i < MAX_SENSORS")
    case False
    show ?thesis
    proof (cases "debug e")
      case True
      with False have "snd (setSensorValue_loop e w ty v i) =
          Serial_write w (map of_char ''EveryIBus: Warning - No free sensor slots'' @ [0x0D, 0x0A])"
        by (subst setSensorValue_loop.simps)
          (simp add: Serial_print_def Serial_println_def Serial_write_append)
      with True show ?thesis by blast
    next
      case nd: False
      with False have "snd (setSensorValue_loop e w ty v i) = Serial_write w []"
        by (subst setSensorValue_loop.simps) (simp add: Serial_write_Nil)
      then show ?thesis by blast
    qed
  next
    case True
    show ?thesis
    proof (cases "hasValue (sensors e ! i)")
      case False
      show ?thesis
      proof (cases "debug e")
        case dbg: True
        with True False have "snd (setSensorValue_loop e w ty v i) =
          Serial_write w ((((map of_char ''EveryIBus: Added sensor type '' @ printNumber (unat ty) 10)
             @ map of_char '' at index '') @ printNumber i 10) @ [0x0D, 0x0A])"
          by (subst setSensorValue_loop.simps)
            (simp add: Serial_print_def Serial_print_number_def Serial_println_def
              Serial_write_append)
        with dbg show ?thesis by blast
      next
        case nd: False
        with True False have "snd (setSensorValue_loop e w ty v i) = Serial_write w []"
          by (subst setSensorValue_loop.simps) (simp add: Serial_write_Nil)
        then show ?thesis by blast
      qed
    next
      case hv: True
      with True have "setSensorValue_loop e w ty v i = setSensorValue_loop e w ty v (i + 1)"
        by (subst setSensorValue_loop.simps) simp
      with "1.IH" [OF True] hv show ?thesis by simp
    qed
  qed
qed

lemma setSensorValue_engine:
  "\<exists>ss. fst (setSensorValue e w ty v) = e\<lparr>sensors := ss\<rparr>"
  using setSensorValue_loop_engine [of e w ty v 0]
  by (auto simp: setSensorValue_def Let_def)

lemma setSensorValue_fields:
  "serial (fst (setSensorValue e w ty v)) = serial e
   \<and> packetCount (fst (setSensorValue e w ty v)) = packetCount e
   \<and> responseCount (fst (setSensorValue e w ty v)) = responseCount e
   \<and> anyDiscovered (fst (setSensorValue e w ty v)) = anyDiscovered e
   \<and> debug (fst (setSensorValue e w ty v)) = debug e"
proof -
  from setSensorValue_engine [of e w ty v] obtain ss
    where "fst (setSensorValue e w ty v) = e\<lparr>sensors := ss\<rparr>" by blast
  then show ?thesis by simp
qed

lemma setSensorValue_ports:
  "\<exists>bs. snd (setSensorValue e w ty v) = Serial_write w bs \<and> (\<not> debug e \<longrightarrow> bs = [])"
proof (cases "findSensorIndex e ty = - 1")
  case True
  with setSensorValue_loop_ports [of e w ty v 0] show ?thesis
    by (simp add: setSensorValue_def Let_def)
next
  case False
  then have "snd (setSensorValue e w ty v) = Serial_write w []"
    by (simp add: setSensorValue_def Let_def Serial_write_Nil)
  then show ?thesis by blast
qed

lemma setSensorValue_quiet: "\<not> debug e \<Longrightarrow> snd (setSensorValue e w ty v) = w"
  using setSensorValue_ports [of e w ty v] by (auto simp: Serial_write_Nil)

subsection \<open>Evaluation on concrete states\<close>

text \<open>
  The steps and the registrations in a form that evaluates on concrete engines and
  ports.
\<close>

lemma setSensorValue_eval:
  assumes wf: "wf e" and quiet: "\<not> debug e"
  shows "setSensorValue e w ty v =
     (let s0 = sensors e ! 0; s1 = sensors e ! 1; s2 = sensors e ! 2; s3 = sensors e ! 3;
          new = \<lparr>type = ty, value_u16 = v, hasValue = True\<rparr>
      in (if hasValue s0 \<and> type s0 = ty then e\<lparr>sensors := [s0\<lparr>value_u16 := v\<rparr>, s1, s2, s3]\<rparr>
          else if hasValue s1 \<and> type s1 = ty then e\<lparr>sensors := [s0, s1\<lparr>value_u16 := v\<rparr>, s2, s3]\<rparr>
          else if hasValue s2 \<and> type s2 = ty then e\<lparr>sensors := [s0, s1, s2\<lparr>value_u16 := v\<rparr>, s3]\<rparr>
          else if hasValue s3 \<and> type s3 = ty then e\<lparr>sensors := [s0, s1, s2, s3\<lparr>value_u16 := v\<rparr>]\<rparr>
          else if \<not> hasValue s0 then e\<lparr>sensors := [new, s1, s2, s3]\<rparr>
          else if \<not> hasValue s1 then e\<lparr>sensors := [s0, new, s2, s3]\<rparr>
          else if \<not> hasValue s2 then e\<lparr>sensors := [s0, s1, new, s3]\<rparr>
          else if \<not> hasValue s3 then e\<lparr>sensors := [s0, s1, s2, new]\<rparr>
          else e,
          w))"
proof -
  from wf_sensors [OF wf] obtain s0 s1 s2 s3 where ss: "sensors e = [s0, s1, s2, s3]" by blast
  have "snd (setSensorValue e w ty v) = w" by (rule setSensorValue_quiet [OF quiet])
  moreover have "fst (setSensorValue e w ty v) =
      (if hasValue s0 \<and> type s0 = ty then e\<lparr>sensors := [s0\<lparr>value_u16 := v\<rparr>, s1, s2, s3]\<rparr>
          else if hasValue s1 \<and> type s1 = ty then e\<lparr>sensors := [s0, s1\<lparr>value_u16 := v\<rparr>, s2, s3]\<rparr>
          else if hasValue s2 \<and> type s2 = ty then e\<lparr>sensors := [s0, s1, s2\<lparr>value_u16 := v\<rparr>, s3]\<rparr>
          else if hasValue s3 \<and> type s3 = ty then e\<lparr>sensors := [s0, s1, s2, s3\<lparr>value_u16 := v\<rparr>]\<rparr>
          else if \<not> hasValue s0 then e\<lparr>sensors := [\<lparr>type = ty, value_u16 = v, hasValue = True\<rparr>, s1, s2, s3]\<rparr>
          else if \<not> hasValue s1 then e\<lparr>sensors := [s0, \<lparr>type = ty, value_u16 = v, hasValue = True\<rparr>, s2, s3]\<rparr>
          else if \<not> hasValue s2 then e\<lparr>sensors := [s0, s1, \<lparr>type = ty, value_u16 = v, hasValue = True\<rparr>, s3]\<rparr>
          else if \<not> hasValue s3 then e\<lparr>sensors := [s0, s1, s2, \<lparr>type = ty, value_u16 = v, hasValue = True\<rparr>]\<rparr>
          else e)"
    using ss
    by (simp add: setSensorValue_def findSensorIndex_def findSensorIndex_loop_4
        setSensorValue_loop_4 Let_def)
  ultimately show ?thesis
    by (cases "setSensorValue e w ty v") (simp add: ss Let_def)
qed

lemma debugPrintHex_loop_4:
  "debugPrintHex_loop w [p0, p1, p2, p3] 4 0 =
     Serial_write w
       ((if p0 < 0x10 then [0x30] else []) @ printNumber (unat p0) 16 @ [0x20] @
        (if p1 < 0x10 then [0x30] else []) @ printNumber (unat p1) 16 @ [0x20] @
        (if p2 < 0x10 then [0x30] else []) @ printNumber (unat p2) 16 @ [0x20] @
        (if p3 < 0x10 then [0x30] else []) @ printNumber (unat p3) 16)"
  by (simp add: debugPrintHex_loop.simps [of _ _ _ 0]
      debugPrintHex_loop.simps [of _ _ _ "Suc 0"] debugPrintHex_loop.simps [of _ _ _ "Suc (Suc 0)"]
      debugPrintHex_loop.simps [of _ _ _ "Suc (Suc (Suc 0))"]
      debugPrintHex_loop.simps [of _ _ _ "Suc (Suc (Suc (Suc 0)))"]
      Let_def Serial_print_def Serial_print_number_def Serial_write_append Serial_write_Nil)

lemma update_eval:
  assumes att: "serial e = Some p" and len: "4 \<le> length (rx (w p))"
  shows "update e w =
     (let p0 = rx (w p) ! 0; p1 = rx (w p) ! 1; p2 = rx (w p) ! 2; p3 = rx (w p) ! 3;
          e1 = e\<lparr>packetCount := packetCount e + 1\<rparr>;
          w1 = w(p := (w p)\<lparr>rx := drop 4 (rx (w p))\<rparr>);
          w2 = (if debug e then debugPrintHex_loop (Serial_print w1 ''RX: '') [p0, p1, p2, p3] 4 0
                else w1);
          r = (if validatePacket [p0, p1, p2, p3] then
                 (if p1 AND 0x0F \<ge> 1 \<and> p1 AND 0x0F \<le> 4 then
                    (if p1 AND 0xF0 = 0x80 then handleDiscoveryCommand e1 w2 (p1 AND 0x0F)
                     else if p1 AND 0xF0 = 0x90 then sendTypeResponse e1 w2 (p1 AND 0x0F)
                     else if p1 AND 0xF0 = 0xA0 then sendMeasurementResponse e1 w2 (p1 AND 0x0F)
                     else Inr (e1, w2))
                  else Inr (e1, w2))
               else Inr (e1, w2))
      in case r of
           Inl f \<Rightarrow> Inl f
         | Inr (e2, w3) \<Rightarrow>
             Inr (e2, clearSerialBuffer e2 (if debug e2 then Serial_println w3 else w3)))"
proof -
  from length_ge_4 [OF len] obtain p0 p1 p2 p3 rest
    where rx: "rx (w p) = p0 # p1 # p2 # p3 # rest" by blast
  show ?thesis
    unfolding update_frame [where w = w, OF att rx] handlePacket_frame [where w = w, OF att rx]
    by (simp add: rx Let_def)
qed

lemma idle_ports_clear: "idle_ports(p := (idle_ports p)\<lparr>rx := []\<rparr>) = idle_ports"
  by (rule ext) (simp add: idle_ports_def)

lemmas engine_defs =
  new_EveryIBus_def example_engine_def full_engine_def debug_engine_def unused_sensor_def
  wf_def MAX_SENSORS_def replicate_4 IBUS_SENSOR_RPM_def IBUS_SENSOR_TEMPERATURE_def
  IBUS_SENSOR_INTERNAL_VOLTAGE_def IBUS_SENSOR_EXTERNAL_VOLTAGE_def

lemmas step_eval =
  update_eval debug_engine_def example_engine_def unused_sensor_def validatePacket_def
  debugPrintHex_loop_4 printNumber.simps digit_char_def clearSerialBuffer_at debug_defs Let_def
  handleDiscoveryCommand_def sendDiscoveryResponse_def sendTypeResponse_def
  sendMeasurementResponse_def sensor_at_def MAX_SENSORS_def sendPacket_attached
  calculateChecksum_4

lemma run_append:
  "run (xs @ ys) s = (case run xs s of Inl f \<Rightarrow> Inl f | Inr s' \<Rightarrow> run ys s')"
  by (induction xs arbitrary: s) (auto split: sum.splits)

lemma run_example_ops: "run example_ops (new_EveryIBus, idle_ports) = Inr (example_engine, idle_ports)"
  by (simp add: example_ops_def begin_serial_def Let_def clearSerialBuffer_attached
      idle_ports_clear setSensorValue_eval engine_defs)

lemma run_full_ops: "run full_ops (new_EveryIBus, idle_ports) = Inr (full_engine, idle_ports)"
  by (simp add: full_ops_def run_append run_example_ops)
    (simp add: setSensorValue_eval engine_defs)

lemma run_debug_ops: "run debug_ops (new_EveryIBus, idle_ports) = Inr (debug_engine, idle_ports)"
  by (simp add: debug_ops_def begin_serial_def Let_def clearSerialBuffer_attached
      idle_ports_clear setSensorValue_eval setDebug_def engine_defs)

subsection \<open>Requests and responses\<close>




text \<open>
  C3 (as amended). The engine is attached to the port \<open>p\<close>, the diagnostic output is off
  or \<open>p\<close> is not \<^verbatim>\<open>Serial\<close>, slot \<open>a - 1\<close> (for an address \<open>a\<close> in \<open>1..4\<close>) is occupied
  and holds the value \<open>v\<close>, and \<open>p\<close> holds the valid MEASUREMENT frame for \<open>a\<close>. Then
  \<open>update\<close> writes to \<open>p\<close> exactly the six bytes
  \<open>[0x06, 0xA0 | a, v & 0xFF, v >> 8, chkLo, chkHi]\<close>, where the checksum \<open>chk\<close> is
  \<open>0xFFFF\<close> minus the sum of the first four bytes, low byte first.
\<close>

theorem C3_measurement_response:
  assumes att: "serial e = Some p" and quiet: "\<not> debug e \<or> p \<noteq> Serial"
    and wf: "wf e" and a1: "1 \<le> a" and a4: "a \<le> 4"
    and occ: "hasValue (sensors e ! (unat a - 1))"
    and v: "value_u16 (sensors e ! (unat a - 1)) = v"
    and rx: "rx (w p) = request_frame 0x04 (0xA0 OR a) @ rest"
    and chk: "chk = (0xFFFF :: u16) - (ucast (0x06 :: u8) + ucast (0xA0 OR a)
                       + ucast (ucast (v AND 0xFF) :: u8) + ucast (ucast (drop_bit 8 v) :: u8))"
  shows "\<exists>w'. update e w =
           Inr (e\<lparr>packetCount := packetCount e + 1, responseCount := responseCount e + 1\<rparr>, w')
         \<and> w' p =
           (w p)\<lparr>rx := [],
                  tx := tx (w p) @ [0x06, 0xA0 OR a, ucast (v AND 0xFF), ucast (drop_bit 8 v),
                                    ucast (chk AND 0xFF), ucast (drop_bit 8 chk)]\<rparr>"
proof -
  let ?c = "0xA0 OR a"
  let ?chk = "(0xFFFF :: u16) - (0x04 + ucast ?c)"
  let ?e1 = "e\<lparr>packetCount := packetCount e + 1\<rparr>"
  let ?w1 = "w(p := (w p)\<lparr>rx := rest\<rparr>)"
  let ?w2 = "if debug e then debugPrintHex_loop (Serial_print ?w1 ''RX: '')
               [0x04, ?c, ucast ?chk, ucast (drop_bit 8 ?chk)] 4 0 else ?w1"
  from rx have rx': "rx (w p) = 0x04 # ?c # ucast ?chk # ucast (drop_bit 8 ?chk) # rest"
    by (simp add: request_frame_bytes)
  have valid: "validatePacket [0x04, ?c, ucast ?chk, ucast (drop_bit 8 ?chk)]"
    using validatePacket_request_frame [of "0x04" ?c] by (simp add: request_frame_bytes)
  note nib = nibbles [OF address_cases [OF a1 a4]]
  have att1: "serial ?e1 = Some p" and quiet1: "\<not> debug ?e1 \<or> p \<noteq> Serial" and wf1: "wf ?e1"
    and occ1: "hasValue (sensors ?e1 ! (unat a - 1))"
    and v1: "value_u16 (sensors ?e1 ! (unat a - 1)) = v"
    using att quiet wf occ v by (simp_all add: wf_def)
  have w2: "?w2 p = (w p)\<lparr>rx := rest\<rparr>" by (rule received_at [OF quiet])
  from sendMeasurementResponse_at [OF att1 quiet1 wf1 a1 a4 occ1 v1, of ?w2] obtain w3
    where h: "sendMeasurementResponse ?e1 ?w2 a = Inr (?e1\<lparr>responseCount := responseCount ?e1 + 1\<rparr>, w3)"
      and w3: "w3 p = (?w2 p)\<lparr>tx := tx (?w2 p) @
                   [0x06, ?c, ucast v, ucast (drop_bit 8 v),
                    ucast (calculateChecksum [0x06, ?c, ucast v, ucast (drop_bit 8 v)] 4),
                    ucast (drop_bit 8
                      (calculateChecksum [0x06, ?c, ucast v, ucast (drop_bit 8 v)] 4))]\<rparr>"
    by blast
  show ?thesis
    unfolding update_frame [where w = w, OF att rx'] handlePacket_frame [where w = w, OF att rx']
    using valid nib a1 a4 att quiet h w3 w2 chk
    by (auto simp: Let_def clearSerialBuffer_at debug_defs calculateChecksum_4 low_byte)
qed

text \<open>
  On the example engine, attached to \<^verbatim>\<open>Serial1\<close>: the raw value \<open>0x10E8\<close> at address 2
  is sent as \<open>[0x06, 0xA2, 0xE8, 0x10, 0x5F, 0xFE]\<close> (diagnostic output off), and the raw
  value 4294 (\<open>0x10C6\<close>) at address 1 as \<open>[0x06, 0xA1, 0xC6, 0x10, 0x82, 0xFE]\<close>
  (diagnostic output on).
\<close>

theorem C3_measurement_response_witness:
  "(\<exists>w'. update example_engine (idle_ports(Serial1 := \<lparr>rx = [0x04, 0xA2, 0x59, 0xFF], tx = []\<rparr>))
            = Inr (example_engine\<lparr>packetCount := 1, responseCount := 1\<rparr>, w')
          \<and> w' Serial1 = \<lparr>rx = [], tx = [0x06, 0xA2, 0xE8, 0x10, 0x5F, 0xFE]\<rparr>)
   \<and> (\<exists>w'. update (setDebug example_engine True)
              (idle_ports(Serial1 := \<lparr>rx = [0x04, 0xA1, 0x5A, 0xFF], tx = []\<rparr>))
            = Inr (example_engine\<lparr>packetCount := 1, responseCount := 1, debug := True\<rparr>, w')
          \<and> w' Serial1 = \<lparr>rx = [], tx = [0x06, 0xA1, 0xC6, 0x10, 0x82, 0xFE]\<rparr>)"
  using C3_measurement_response [where e = example_engine and p = Serial1 and a = 2 and rest = "[]" and v = "0x10E8"
        and chk = "0xFE5F"
        and w = "idle_ports(Serial1 := \<lparr>rx = [0x04, 0xA2, 0x59, 0xFF], tx = []\<rparr>)"]
    C3_measurement_response [where e = "setDebug example_engine True" and p = Serial1 and a = 1 and rest = "[]"
        and v = 4294 and chk = "0xFE82"
        and w = "idle_ports(Serial1 := \<lparr>rx = [0x04, 0xA1, 0x5A, 0xFF], tx = []\<rparr>)"]
  by (simp add: example_engine_def setDebug_def unused_sensor_def wf_def MAX_SENSORS_def
      request_frame_def)

text \<open>
  C3 as stated fails. With the bus on \<^verbatim>\<open>Serial\<close> and the diagnostic output on, a
  MEASUREMENT frame for address 2 puts the text \<open>RX: 04 A2 59 FF\<close>, the six bytes of the
  response, the text \<open> -> MEASUREMENT ADDR:2 [SENT]\<close> and a line end on the bus, more
  than the six bytes.
\<close>

theorem C3_debug_on_bus_port_counterexample:
  "run debug_ops (new_EveryIBus, idle_ports) = Inr (debug_engine, idle_ports)
   \<and> written Serial
        (update debug_engine (idle_ports(Serial := \<lparr>rx = [0x04, 0xA2, 0x59, 0xFF], tx = []\<rparr>)))
       = map of_char ''RX: 04 A2 59 FF'' @ [0x06, 0xA2, 0xE8, 0x10, 0x5F, 0xFE]
           @ map of_char '' -> MEASUREMENT ADDR:2 [SENT]'' @ [0x0D, 0x0A]
   \<and> written Serial
        (update debug_engine (idle_ports(Serial := \<lparr>rx = [0x04, 0xA2, 0x59, 0xFF], tx = []\<rparr>)))
       \<noteq> [0x06, 0xA2, 0xE8, 0x10, 0x5F, 0xFE]"
  by (simp add: run_debug_ops) (simp add: written_def step_eval)

text \<open>
  C4 (as amended). The engine is attached to the port \<open>p\<close>, the diagnostic output is off
  or \<open>p\<close> is not \<^verbatim>\<open>Serial\<close>, and \<open>p\<close> holds the valid TYPE frame for an address \<open>a\<close> in
  \<open>1..4\<close>. If slot \<open>a - 1\<close> is occupied with sensor type \<open>ty\<close>, \<open>update\<close> writes to \<open>p\<close>
  exactly the six bytes \<open>[0x06, 0x90 | a, ty, 0x02, chkLo, chkHi]\<close>, where the checksum
  \<open>chk\<close> is \<open>0xFFFF\<close> minus the sum of the first four bytes, low byte first. If the
  slot is not occupied, nothing is written to \<open>p\<close>.
\<close>

theorem C4_type_response:
  assumes att: "serial e = Some p" and quiet: "\<not> debug e \<or> p \<noteq> Serial"
    and wf: "wf e" and a1: "1 \<le> a" and a4: "a \<le> 4"
    and ty: "type (sensors e ! (unat a - 1)) = ty"
    and rx: "rx (w p) = request_frame 0x04 (0x90 OR a) @ rest"
    and chk: "chk = (0xFFFF :: u16) - (ucast (0x06 :: u8) + ucast (0x90 OR a)
                       + ucast ty + ucast (0x02 :: u8))"
  shows "\<exists>w'. update e w =
           Inr (if hasValue (sensors e ! (unat a - 1))
                then e\<lparr>packetCount := packetCount e + 1, responseCount := responseCount e + 1\<rparr>
                else e\<lparr>packetCount := packetCount e + 1\<rparr>, w')
         \<and> w' p =
           (if hasValue (sensors e ! (unat a - 1))
            then (w p)\<lparr>rx := [],
                   tx := tx (w p) @ [0x06, 0x90 OR a, ty, 0x02,
                                     ucast (chk AND 0xFF), ucast (drop_bit 8 chk)]\<rparr>
            else (w p)\<lparr>rx := []\<rparr>)"
proof -
  let ?c = "0x90 OR a"
  let ?chk = "(0xFFFF :: u16) - (0x04 + ucast ?c)"
  let ?e1 = "e\<lparr>packetCount := packetCount e + 1\<rparr>"
  let ?w1 = "w(p := (w p)\<lparr>rx := rest\<rparr>)"
  let ?w2 = "if debug e then debugPrintHex_loop (Serial_print ?w1 ''RX: '')
               [0x04, ?c, ucast ?chk, ucast (drop_bit 8 ?chk)] 4 0 else ?w1"
  from rx have rx': "rx (w p) = 0x04 # ?c # ucast ?chk # ucast (drop_bit 8 ?chk) # rest"
    by (simp add: request_frame_bytes)
  have valid: "validatePacket [0x04, ?c, ucast ?chk, ucast (drop_bit 8 ?chk)]"
    using validatePacket_request_frame [of "0x04" ?c] by (simp add: request_frame_bytes)
  note nib = nibbles [OF address_cases [OF a1 a4]]
  have att1: "serial ?e1 = Some p" and quiet1: "\<not> debug ?e1 \<or> p \<noteq> Serial" and wf1: "wf ?e1"
    using att quiet wf by (simp_all add: wf_def)
  have w2: "?w2 p = (w p)\<lparr>rx := rest\<rparr>" by (rule received_at [OF quiet])
  from sendTypeResponse_at [OF att1 quiet1 wf1 a1 a4, of ?w2] obtain w3
    where h: "sendTypeResponse ?e1 ?w2 a =
           Inr (if hasValue (sensors ?e1 ! (unat a - 1))
                then ?e1\<lparr>responseCount := responseCount ?e1 + 1\<rparr> else ?e1, w3)"
      and w3: "w3 p = (if hasValue (sensors ?e1 ! (unat a - 1))
            then (?w2 p)\<lparr>tx := tx (?w2 p) @
                   [0x06, ?c, type (sensors ?e1 ! (unat a - 1)), 0x02,
                    ucast (calculateChecksum [0x06, ?c, type (sensors ?e1 ! (unat a - 1)), 0x02] 4),
                    ucast (drop_bit 8
                      (calculateChecksum [0x06, ?c, type (sensors ?e1 ! (unat a - 1)), 0x02] 4))]\<rparr>
            else ?w2 p)"
    by blast
  show ?thesis
    unfolding update_frame [where w = w, OF att rx'] handlePacket_frame [where w = w, OF att rx']
    using valid nib a1 a4 att quiet h w3 w2 chk ty
    by (auto simp: Let_def clearSerialBuffer_at debug_defs calculateChecksum_4 low_byte)
qed

text \<open>
  On the example engine, attached to \<^verbatim>\<open>Serial1\<close>: with the diagnostic output off,
  TYPE for address 1 (the RPM sensor, type \<open>0x02\<close>) is answered with
  \<open>[0x06, 0x91, 0x02, 0x02, 0x64, 0xFF]\<close>; with the diagnostic output on, TYPE for
  address 4 (not occupied) is not answered.
\<close>

theorem C4_type_response_witness:
  "(\<exists>w'. update example_engine (idle_ports(Serial1 := \<lparr>rx = [0x04, 0x91, 0x6A, 0xFF], tx = []\<rparr>))
            = Inr (example_engine\<lparr>packetCount := 1, responseCount := 1\<rparr>, w')
          \<and> w' Serial1 = \<lparr>rx = [], tx = [0x06, 0x91, 0x02, 0x02, 0x64, 0xFF]\<rparr>)
   \<and> (\<exists>w'. update (setDebug example_engine True)
              (idle_ports(Serial1 := \<lparr>rx = [0x04, 0x94, 0x67, 0xFF], tx = []\<rparr>))
            = Inr (example_engine\<lparr>packetCount := 1, debug := True\<rparr>, w')
          \<and> w' Serial1 = \<lparr>rx = [], tx = []\<rparr>)"
  using C4_type_response [where e = example_engine and p = Serial1 and a = 1 and rest = "[]" and ty = "0x02"
        and chk = "0xFF64"
        and w = "idle_ports(Serial1 := \<lparr>rx = [0x04, 0x91, 0x6A, 0xFF], tx = []\<rparr>)"]
    C4_type_response [where e = "setDebug example_engine True" and p = Serial1 and a = 4 and rest = "[]"
        and ty = "0xFF" and chk = "0xFE64"
        and w = "idle_ports(Serial1 := \<lparr>rx = [0x04, 0x94, 0x67, 0xFF], tx = []\<rparr>)"]
  by (simp add: example_engine_def setDebug_def unused_sensor_def wf_def MAX_SENSORS_def
      request_frame_def)

text \<open>
  C4 as stated fails. With the bus on \<^verbatim>\<open>Serial\<close> and the diagnostic output on, a TYPE
  frame for the occupied address 1 puts the text \<open>RX: 04 91 6A FF\<close>, the six bytes of
  the response, the text \<open> -> TYPE ADDR:1 [SENT]\<close> and a line end on the bus; a TYPE
  frame for the unoccupied address 4 puts the line \<open>RX: 04 94 67 FF\<close> on the bus, where
  the claim has no byte written.
\<close>

theorem C4_debug_on_bus_port_counterexample:
  "run debug_ops (new_EveryIBus, idle_ports) = Inr (debug_engine, idle_ports)
   \<and> written Serial
        (update debug_engine (idle_ports(Serial := \<lparr>rx = [0x04, 0x91, 0x6A, 0xFF], tx = []\<rparr>)))
       = map of_char ''RX: 04 91 6A FF'' @ [0x06, 0x91, 0x02, 0x02, 0x64, 0xFF]
           @ map of_char '' -> TYPE ADDR:1 [SENT]'' @ [0x0D, 0x0A]
   \<and> written Serial
        (update debug_engine (idle_ports(Serial := \<lparr>rx = [0x04, 0x91, 0x6A, 0xFF], tx = []\<rparr>)))
       \<noteq> [0x06, 0x91, 0x02, 0x02, 0x64, 0xFF]
   \<and> written Serial
        (update debug_engine (idle_ports(Serial := \<lparr>rx = [0x04, 0x94, 0x67, 0xFF], tx = []\<rparr>)))
       = map of_char ''RX: 04 94 67 FF'' @ [0x0D, 0x0A]
   \<and> written Serial
        (update debug_engine (idle_ports(Serial := \<lparr>rx = [0x04, 0x94, 0x67, 0xFF], tx = []\<rparr>)))
       \<noteq> []"
  by (simp add: run_debug_ops) (simp add: written_def step_eval)




text \<open>
  C8. The engine is attached to the port \<open>p\<close> and at least four bytes are buffered in
  \<open>p\<close>. Then \<open>update\<close> returns, and the receive buffer of \<open>p\<close> is empty afterwards,
  whatever the four consumed bytes were, however many bytes followed them, and
  whether or not the diagnostic output is on.
\<close>

theorem C8_buffer_cleared:
  assumes att: "serial e = Some p" and wf: "wf e" and len: "4 \<le> length (rx (w p))"
  shows "\<exists>e' w'. update e w = Inr (e', w') \<and> rx (w' p) = []"
proof -
  from len obtain p0 p1 p2 p3 rest where rx: "rx (w p) = p0 # p1 # p2 # p3 # rest"
    using length_ge_4 [of "rx (w p)"] by auto
  from handlePacket_ok [where w = w, OF att wf rx] show ?thesis
    unfolding update_frame [where w = w, OF att rx] by auto
qed

text \<open>
  A valid DISCOVER frame followed by the first two bytes of the next frame: on the
  example engine, and on the engine whose bus is \<^verbatim>\<open>Serial\<close> and whose diagnostic output
  is on.
\<close>

theorem C8_buffer_cleared_witness:
  "(\<exists>e' w'. update example_engine
               (idle_ports(Serial1 := \<lparr>rx = [0x04, 0x81, 0x7A, 0xFF, 0x04, 0x82], tx = []\<rparr>))
              = Inr (e', w')
            \<and> rx (w' Serial1) = [])
   \<and> (\<exists>e' w'. update debug_engine
               (idle_ports(Serial := \<lparr>rx = [0x04, 0x81, 0x7A, 0xFF, 0x04, 0x82], tx = []\<rparr>))
              = Inr (e', w')
            \<and> rx (w' Serial) = [])"
  using C8_buffer_cleared [where e = example_engine and p = Serial1
        and w = "idle_ports(Serial1 := \<lparr>rx = [0x04, 0x81, 0x7A, 0xFF, 0x04, 0x82], tx = []\<rparr>)"]
    C8_buffer_cleared [where e = debug_engine and p = Serial
        and w = "idle_ports(Serial := \<lparr>rx = [0x04, 0x81, 0x7A, 0xFF, 0x04, 0x82], tx = []\<rparr>)"]
  by (simp add: example_engine_def debug_engine_def wf_def MAX_SENSORS_def)

subsection \<open>The registry\<close>

text \<open>
  On a table made of occupied slots with distinct types followed by unused slots,
  \<open>setSensorValue\<close> does what \<open>register\<close> says, and \<open>findSensorIndex\<close> returns the
  position of the type among the occupied slots.
\<close>

lemma setSensorValue_registry:
  assumes ss: "sensors e = registry_of occ" and len: "length occ \<le> MAX_SENSORS"
    and occ: "\<forall>s\<in>set occ. hasValue s" and dist: "distinct (map type occ)"
  shows "sensors (fst (setSensorValue e w ty v)) = registry_of (register occ ty v)"
proof -
  from len have "length occ \<le> 4" by (simp add: MAX_SENSORS_def)
  from length_le_4_cases [OF this] show ?thesis
    apply (elim disjE exE)
    using ss occ dist
        apply (simp_all add: setSensorValue_def findSensorIndex_def registry_of_def register_def
        MAX_SENSORS_def findSensorIndex_loop_4 setSensorValue_loop_4 unused_sensor_def
        numeral_eq_Suc Let_def)
     apply auto
    done
qed

lemma findSensorIndex_registry:
  assumes ss: "sensors e = registry_of occ" and len: "length occ \<le> MAX_SENSORS"
    and occ: "\<forall>s\<in>set occ. hasValue s"
  shows "findSensorIndex e ty =
     (if ty \<in> set (map type occ) then int (length (takeWhile (\<lambda>s. type s \<noteq> ty) occ)) else - 1)"
proof -
  from len have "length occ \<le> 4" by (simp add: MAX_SENSORS_def)
  from length_le_4_cases [OF this] show ?thesis
    apply (elim disjE exE)
    using ss occ
        apply (simp_all add: findSensorIndex_def registry_of_def
        MAX_SENSORS_def findSensorIndex_loop_4 unused_sensor_def numeral_eq_Suc Let_def)
    done
qed

lemma register_types:
  "map type (register occ ty v) =
     (if ty \<in> set (map type occ) \<or> \<not> length occ < MAX_SENSORS then map type occ
      else map type occ @ [ty])"
  by (auto simp: register_def)

lemma register_length: "length occ \<le> MAX_SENSORS \<Longrightarrow> length (register occ ty v) \<le> MAX_SENSORS"
  by (auto simp: register_def)

lemma register_hasValue:
  "\<forall>s\<in>set occ. hasValue s \<Longrightarrow> \<forall>s\<in>set (register occ ty v). hasValue s"
  by (auto simp: register_def)

lemma register_distinct: "distinct (map type occ) \<Longrightarrow> distinct (map type (register occ ty v))"
  by (auto simp: register_types)

lemma register_value:
  assumes s: "s \<in> set (register occ ty v)" and ty: "type s = ty"
  shows "value_u16 s = v"
proof (cases "ty \<in> set (map type occ)")
  case True
  with s obtain s' where "s' \<in> set occ"
    and eq: "s = (if type s' = ty then s'\<lparr>value_u16 := v\<rparr> else s')"
    by (auto simp: register_def)
  with ty show ?thesis by (cases "type s' = ty") auto
next
  case False
  with ty have "s \<notin> set occ" by auto
  with s False show ?thesis by (cases "length occ < MAX_SENSORS") (auto simp: register_def)
qed

lemma registry_of_length: "length occ \<le> MAX_SENSORS \<Longrightarrow> length (registry_of occ) = MAX_SENSORS"
  by (simp add: registry_of_def)

lemma registry_of_nth: "i < length occ \<Longrightarrow> registry_of occ ! i = occ ! i"
  by (simp add: registry_of_def nth_append)

lemma registry_of_hasValue:
  assumes len: "length occ \<le> MAX_SENSORS" and occ: "\<forall>s\<in>set occ. hasValue s"
    and i: "i < MAX_SENSORS"
  shows "hasValue (registry_of occ ! i) \<longleftrightarrow> i < length occ"
proof (cases "i < length occ")
  case True
  with occ show ?thesis by (simp add: registry_of_nth)
next
  case False
  with i len show ?thesis by (simp add: registry_of_def nth_append unused_sensor_def)
qed

lemma slots_of_registry:
  assumes ss: "sensors e = registry_of occ" and occ: "\<forall>s\<in>set occ. hasValue s"
  shows "slots_of_type e ty = filter (\<lambda>s. type s = ty) occ"
proof -
  have "filter (\<lambda>s. hasValue s \<and> type s = ty) occ = filter (\<lambda>s. type s = ty) occ"
    using occ by (auto intro: filter_cong)
  then show ?thesis
    by (simp add: slots_of_type_def ss registry_of_def unused_sensor_def)
qed

subsection \<open>Runs from a fresh engine\<close>

lemma first_distinct_snoc:
  "first_distinct (xs @ [x]) =
     (if x \<in> set (first_distinct xs) then first_distinct xs else first_distinct xs @ [x])"
  by (simp add: first_distinct_def)

lemma distinct_first_distinct: "distinct (first_distinct xs)"
  by (induction xs rule: rev_induct) (simp_all add: first_distinct_snoc, simp add: first_distinct_def)

lemma set_first_distinct: "set (first_distinct xs) = set xs"
  by (induction xs rule: rev_induct) (auto simp: first_distinct_snoc, simp add: first_distinct_def)

lemma first_distinct_append: "\<exists>zs. first_distinct (xs @ ys) = first_distinct xs @ zs"
proof (induction ys rule: rev_induct)
  case Nil
  show ?case by simp
next
  case (snoc y ys)
  then obtain zs where "first_distinct (xs @ ys) = first_distinct xs @ zs" by blast
  then show ?case
    using first_distinct_snoc [of "xs @ ys" y] by (cases "y \<in> set (first_distinct (xs @ ys))") auto
qed

lemma registered_append: "registered (xs @ ys) = registered xs @ registered ys"
  by (induction xs rule: registered.induct) simp_all

lemma take_first_distinct_snoc:
  assumes "map type occ = take MAX_SENSORS (first_distinct tys)"
  shows "map type (register occ ty v) = take MAX_SENSORS (first_distinct (tys @ [ty]))"
proof (cases "length (first_distinct tys) < MAX_SENSORS")
  case True
  with assms have eq: "map type occ = first_distinct tys" by simp
  then have "length occ < MAX_SENSORS" using True by (metis length_map)
  with eq True show ?thesis by (simp add: register_types first_distinct_snoc)
next
  case False
  with assms have "length occ = MAX_SENSORS" by (metis length_map length_take min.absorb2 not_less)
  moreover from False have "take MAX_SENSORS (first_distinct (tys @ [ty])) = take MAX_SENSORS (first_distinct tys)"
    by (simp add: first_distinct_snoc)
  ultimately show ?thesis using assms by (simp add: register_types)
qed

lemma begin_serial_engine: "fst (begin_serial e w p) = e\<lparr>serial := Some p\<rparr>"
  by (simp add: begin_serial_def Let_def)

lemma step_registry:
  assumes ss: "sensors e = registry_of occ" and len: "length occ \<le> MAX_SENSORS"
    and occ: "\<forall>s\<in>set occ. hasValue s" and dist: "distinct (map type occ)"
  shows "\<exists>e' w'. step x (e, w) = Inr (e', w') \<and>
           sensors e' = registry_of (case x of SetSensorValue ty v \<Rightarrow> register occ ty v | _ \<Rightarrow> occ)"
proof (cases x)
  case Update
  have "wf e" using ss len by (simp add: wf_def registry_of_length)
  from update_ok [OF this, of w] Update ss show ?thesis by auto
next
  case (SetSensorValue ty v)
  with setSensorValue_registry [OF ss len occ dist, of w ty v] show ?thesis
    by (cases "setSensorValue e w ty v") simp
next
  case (Begin p)
  with ss show ?thesis by (cases "begin_serial e w p") (use begin_serial_engine [of e w p] in auto)
qed (simp_all add: ss setDebug_def)

text \<open>
  Every run from a fresh engine ends in a state (it never reaches undefined behaviour)
  whose table is the occupied slots followed by unused ones, the types of the occupied
  slots being the first \<open>MAX_SENSORS\<close> distinct types registered, in order.
\<close>

lemma run_registry:
  "\<exists>e w occ. run ops (new_EveryIBus, w0) = Inr (e, w) \<and> sensors e = registry_of occ
      \<and> length occ \<le> MAX_SENSORS \<and> (\<forall>s\<in>set occ. hasValue s)
      \<and> map type occ = take MAX_SENSORS (first_distinct (registered ops))"
proof (induction ops rule: rev_induct)
  case Nil
  show ?case by (simp add: new_EveryIBus_def registry_of_def first_distinct_def)
next
  case (snoc x xs)
  then obtain e w occ where r: "run xs (new_EveryIBus, w0) = Inr (e, w)"
    and ss: "sensors e = registry_of occ" and len: "length occ \<le> MAX_SENSORS"
    and occ: "\<forall>s\<in>set occ. hasValue s"
    and tys: "map type occ = take MAX_SENSORS (first_distinct (registered xs))"
    by blast
  from tys have dist: "distinct (map type occ)" by (simp add: distinct_first_distinct)
  from step_registry [OF ss len occ dist, of x w] obtain e' w' where
    st: "step x (e, w) = Inr (e', w')"
    and ss': "sensors e' = registry_of (case x of SetSensorValue ty v \<Rightarrow> register occ ty v | _ \<Rightarrow> occ)"
    by blast
  have run: "run (xs @ [x]) (new_EveryIBus, w0) = Inr (e', w')"
    using r st by (simp add: run_append)
  show ?case
  proof (cases x)
    case (SetSensorValue ty v)
    with ss' have "sensors e' = registry_of (register occ ty v)" by simp
    moreover have "map type (register occ ty v) = take MAX_SENSORS (first_distinct (registered (xs @ [x])))"
      using take_first_distinct_snoc [OF tys] SetSensorValue by (simp add: registered_append)
    ultimately show ?thesis using run register_length [OF len] register_hasValue [OF occ] by blast
  qed (use run ss' len occ tys in \<open>auto simp: registered_append\<close>)
qed

lemma run_without_begin:
  "\<forall>p. Begin p \<notin> set ops \<Longrightarrow>
   \<exists>e w. run ops (new_EveryIBus, w0) = Inr (e, w) \<and> serial e = None
     \<and> (SetDebug True \<notin> set ops \<longrightarrow> \<not> debug e)
     \<and> (\<forall>q. q \<noteq> Serial \<or> SetDebug True \<notin> set ops \<longrightarrow> tx (w q) = tx (w0 q))
     \<and> packetCount e = 0 \<and> responseCount e = 0 \<and> \<not> anyDiscovered e"
proof (induction ops rule: rev_induct)
  case Nil
  show ?case by (simp add: new_EveryIBus_def)
next
  case (snoc x xs)
  then obtain e w where r: "run xs (new_EveryIBus, w0) = Inr (e, w)" and s: "serial e = None"
    and dbg: "SetDebug True \<notin> set xs \<longrightarrow> \<not> debug e"
    and tx: "\<forall>q. q \<noteq> Serial \<or> SetDebug True \<notin> set xs \<longrightarrow> tx (w q) = tx (w0 q)"
    and rest: "packetCount e = 0" "responseCount e = 0" "\<not> anyDiscovered e"
    by auto
  show ?case
  proof (cases x)
    case (Begin p)
    with snoc.prems show ?thesis by auto
  next
    case Update
    with r s dbg tx rest show ?thesis by (simp add: run_append update_def)
  next
    case (SetSensorValue ty v)
    obtain e' w' where sv: "setSensorValue e w ty v = (e', w')" by (cases "setSensorValue e w ty v")
    from setSensorValue_fields [of e w ty v] sv s rest
    have e': "serial e' = None" "packetCount e' = 0" "responseCount e' = 0" "\<not> anyDiscovered e'"
      "debug e' = debug e"
      by simp_all
    from setSensorValue_ports [of e w ty v] sv obtain bs
      where w': "w' = Serial_write w bs" and quiet: "\<not> debug e \<longrightarrow> bs = []"
      by auto
    have "\<forall>q. q \<noteq> Serial \<or> SetDebug True \<notin> set (xs @ [x]) \<longrightarrow> tx (w' q) = tx (w0 q)"
      using tx dbg quiet by (auto simp: w' Serial_write_at)
    with r sv e' dbg SetSensorValue show ?thesis by (simp add: run_append)
  next
    case (SetDebug b)
    with r s dbg tx rest show ?thesis by (cases b) (auto simp: run_append setDebug_def)
  next
    case (Receive q bs)
    with r s dbg tx rest show ?thesis by (simp add: run_append)
  qed
qed

lemma address_of_nat:
  "1 \<le> k \<Longrightarrow> k \<le> 4 \<Longrightarrow> uint (of_nat k :: u8) - 1 = int (k - 1)"
proof -
  assume "1 \<le> k" "k \<le> 4"
  then have "k = 1 \<or> k = 2 \<or> k = 3 \<or> k = 4" by arith
  then show ?thesis by auto
qed

lemma filter_key_singleton:
  "distinct (map f xs) \<Longrightarrow> x \<in> set xs \<Longrightarrow> filter (\<lambda>s. f s = f x) xs = [x]"
proof (induction xs)
  case Nil
  then show ?case by simp
next
  case (Cons a xs)
  show ?case
  proof (cases "x = a")
    case True
    from Cons.prems have "\<forall>s\<in>set xs. f s \<noteq> f a" by (auto simp: image_iff)
    then have "filter (\<lambda>s. f s = f a) xs = []" by (simp add: filter_empty_conv)
    with True show ?thesis by simp
  next
    case False
    with Cons.prems have x: "x \<in> set xs" by simp
    with Cons.prems have "f a \<noteq> f x" by auto
    with Cons.IH x Cons.prems show ?thesis by simp
  qed
qed

lemma takeWhile_key_nth:
  "distinct (map f xs) \<Longrightarrow> x \<in> set xs \<Longrightarrow>
   length (takeWhile (\<lambda>s. f s \<noteq> f x) xs) < length xs
   \<and> xs ! length (takeWhile (\<lambda>s. f s \<noteq> f x) xs) = x"
proof (induction xs)
  case Nil
  then show ?case by simp
next
  case (Cons a xs)
  show ?case
  proof (cases "f a = f x")
    case True
    with Cons.prems have "x = a" by auto
    with True show ?thesis by simp
  next
    case False
    with Cons.prems have "x \<in> set xs" by auto
    with Cons.IH Cons.prems False show ?thesis by simp
  qed
qed

lemma takeWhile_type:
  "length (takeWhile (\<lambda>s. type s \<noteq> ty) occ) = length (takeWhile (\<lambda>x. x \<noteq> ty) (map type occ))"
  by (simp add: takeWhile_map comp_def)

lemma setSensorValue_twice:
  assumes ss: "sensors e = registry_of occ" and len: "length occ \<le> MAX_SENSORS"
    and occ: "\<forall>s\<in>set occ. hasValue s" and dist: "distinct (map type occ)"
    and room: "findSensorIndex e T \<noteq> - 1 \<or> (\<exists>s\<in>set (sensors e). \<not> hasValue s)"
    and s1: "setSensorValue e w T v1 = (e1, w1)" and s2: "setSensorValue e1 w1 T v2 = (e2, w2)"
  shows "\<exists>s. slots_of_type e2 T = [s] \<and> value_u16 s = v2
           \<and> sensors e2 ! nat (findSensorIndex e2 T) = s
           \<and> findSensorIndex e2 T = findSensorIndex e1 T
           \<and> 0 \<le> findSensorIndex e1 T \<and> findSensorIndex e1 T < int MAX_SENSORS"
proof -
  let ?occ1 = "register occ T v1"
  let ?occ2 = "register ?occ1 T v2"
  let ?n = "length (takeWhile (\<lambda>s. type s \<noteq> T) ?occ2)"
  have ss1: "sensors e1 = registry_of ?occ1"
    using setSensorValue_registry [OF ss len occ dist, of w T v1] s1 by simp
  have len1: "length ?occ1 \<le> MAX_SENSORS" by (rule register_length [OF len])
  have occ1: "\<forall>s\<in>set ?occ1. hasValue s" by (rule register_hasValue [OF occ])
  have dist1: "distinct (map type ?occ1)" by (rule register_distinct [OF dist])
  have ss2: "sensors e2 = registry_of ?occ2"
    using setSensorValue_registry [OF ss1 len1 occ1 dist1, of w1 T v2] s2 by simp
  have len2: "length ?occ2 \<le> MAX_SENSORS" by (rule register_length [OF len1])
  have occ2: "\<forall>s\<in>set ?occ2. hasValue s" by (rule register_hasValue [OF occ1])
  have dist2: "distinct (map type ?occ2)" by (rule register_distinct [OF dist1])
  have "T \<in> set (map type occ) \<or> length occ < MAX_SENSORS"
  proof (rule ccontr)
    assume "\<not> (T \<in> set (map type occ) \<or> length occ < MAX_SENSORS)"
    with len have notin: "T \<notin> set (map type occ)" and full: "length occ = MAX_SENSORS" by auto
    from notin have "findSensorIndex e T = - 1"
      by (simp add: findSensorIndex_registry [OF ss len occ])
    moreover from full occ have "\<forall>s\<in>set (sensors e). hasValue s"
      by (simp add: ss registry_of_def)
    ultimately show False using room by blast
  qed
  then have in1: "T \<in> set (map type ?occ1)" by (auto simp: register_types)
  then have types2: "map type ?occ2 = map type ?occ1" by (simp add: register_types)
  with in1 have in2: "T \<in> set (map type ?occ2)" by simp
  have idx1: "findSensorIndex e1 T = int (length (takeWhile (\<lambda>s. type s \<noteq> T) ?occ1))"
    using in1 by (simp add: findSensorIndex_registry [OF ss1 len1 occ1])
  have idx2: "findSensorIndex e2 T = int ?n"
    using in2 by (simp add: findSensorIndex_registry [OF ss2 len2 occ2])
  have same: "findSensorIndex e2 T = findSensorIndex e1 T"
    unfolding idx1 idx2 takeWhile_type types2 ..
  from in2 obtain s where s: "s \<in> set ?occ2" and ty: "type s = T" by auto
  from takeWhile_key_nth [OF dist2 s] ty
  have n: "?n < length ?occ2" and nth: "?occ2 ! ?n = s" by simp_all
  have "slots_of_type e2 T = [s]"
    using filter_key_singleton [OF dist2 s] ty by (simp add: slots_of_registry [OF ss2 occ2])
  moreover have "value_u16 s = v2" by (rule register_value [OF s ty])
  moreover have "sensors e2 ! nat (findSensorIndex e2 T) = s"
    using n nth by (simp add: idx2 ss2 registry_of_nth)
  moreover have "0 \<le> findSensorIndex e1 T \<and> findSensorIndex e1 T < int MAX_SENSORS"
    using n len2 same idx2 by simp
  ultimately show ?thesis using same by blast
qed

text \<open>
  With four slots and the four types of the public setters, a run that registers only
  those types has, for each of them, its slot or a free one.
\<close>

lemma public_sensor_types_card:
  "distinct public_sensor_types \<and> length public_sensor_types = MAX_SENSORS"
  by (simp add: public_sensor_types_def MAX_SENSORS_def IBUS_SENSOR_INTERNAL_VOLTAGE_def
      IBUS_SENSOR_EXTERNAL_VOLTAGE_def IBUS_SENSOR_TEMPERATURE_def IBUS_SENSOR_RPM_def)

lemma public_room:
  assumes ss: "sensors e = registry_of occ" and len: "length occ \<le> MAX_SENSORS"
    and occ: "\<forall>s\<in>set occ. hasValue s"
    and tys: "map type occ = take MAX_SENSORS (first_distinct (registered ops))"
    and pub: "set (registered ops) \<subseteq> set public_sensor_types"
    and T: "T \<in> set public_sensor_types"
  shows "findSensorIndex e T \<noteq> - 1 \<or> (\<exists>s\<in>set (sensors e). \<not> hasValue s)"
proof (cases "T \<in> set (map type occ)")
  case True
  then show ?thesis by (simp add: findSensorIndex_registry [OF ss len occ])
next
  case False
  have dist: "distinct (map type occ)" by (simp add: tys distinct_first_distinct)
  have sub: "set (map type occ) \<subseteq> set public_sensor_types"
  proof -
    have "set (map type occ) \<subseteq> set (first_distinct (registered ops))"
      unfolding tys by (rule set_take_subset)
    with pub show ?thesis by (simp add: set_first_distinct)
  qed
  have "length occ < MAX_SENSORS"
  proof (rule ccontr)
    assume "\<not> length occ < MAX_SENSORS"
    with len have full: "length occ = MAX_SENSORS" by simp
    have "card (set (map type occ)) = MAX_SENSORS"
      using distinct_card [OF dist] full by simp
    moreover have "card (set public_sensor_types) = MAX_SENSORS"
      using public_sensor_types_card by (simp add: distinct_card)
    ultimately have "set (map type occ) = set public_sensor_types"
      using sub by (simp add: card_subset_eq)
    with T False show False by simp
  qed
  then have "unused_sensor \<in> set (sensors e)" by (simp add: ss registry_of_def)
  moreover have "\<not> hasValue unused_sensor" by (simp add: unused_sensor_def)
  ultimately show ?thesis by blast
qed

text \<open>
  C5. \<^verbatim>\<open>setSensorValue\<close> is private, and its callers, the four public setters, pass
  one of the four \<open>public_sensor_types\<close>. In a state reached by a run from a fresh
  engine that registers only those types, and for each of those types \<open>T\<close>: after
  \<open>setSensorValue T v1\<close> and then \<open>setSensorValue T v2\<close> exactly one occupied slot has
  type \<open>T\<close>, its value is \<open>v2\<close>, it is the slot that \<open>findSensorIndex\<close> returns for \<open>T\<close>,
  and that index is a slot index and is the same as after the first call.
\<close>

theorem C5_register_twice:
  assumes run: "run ops (new_EveryIBus, w0) = Inr (e, w)"
    and pub: "set (registered ops) \<subseteq> set public_sensor_types"
    and T: "T \<in> set public_sensor_types"
    and s1: "setSensorValue e w T v1 = (e1, w1)" and s2: "setSensorValue e1 w1 T v2 = (e2, w2)"
  shows "\<exists>s. slots_of_type e2 T = [s] \<and> value_u16 s = v2
           \<and> sensors e2 ! nat (findSensorIndex e2 T) = s
           \<and> findSensorIndex e2 T = findSensorIndex e1 T
           \<and> 0 \<le> findSensorIndex e1 T \<and> findSensorIndex e1 T < int MAX_SENSORS"
proof -
  from run_registry [of ops w0] run obtain occ
    where ss: "sensors e = registry_of occ" and len: "length occ \<le> MAX_SENSORS"
      and occ: "\<forall>s\<in>set occ. hasValue s"
      and tys: "map type occ = take MAX_SENSORS (first_distinct (registered ops))"
    by auto
  from tys have dist: "distinct (map type occ)" by (simp add: distinct_first_distinct)
  note room = public_room [OF ss len occ tys pub T]
  show ?thesis by (rule setSensorValue_twice [OF ss len occ dist room s1 s2])
qed

text \<open>
  On the example engine: the type \<open>0x02\<close> is registered at index 0 and stays there; the
  type \<open>0x03\<close> is not registered, takes the free slot at index 2 at the first call and
  keeps it at the second.
\<close>

theorem C5_register_twice_witness:
  "run example_ops (new_EveryIBus, idle_ports) = Inr (example_engine, idle_ports)
   \<and> (\<exists>s. slots_of_type
              (fst (setSensorValue (fst (setSensorValue example_engine idle_ports 0x02 1000))
                      idle_ports 0x02 5000)) 0x02 = [s]
          \<and> value_u16 s = 5000
          \<and> findSensorIndex
              (fst (setSensorValue (fst (setSensorValue example_engine idle_ports 0x02 1000))
                      idle_ports 0x02 5000)) 0x02 = 0
          \<and> findSensorIndex (fst (setSensorValue example_engine idle_ports 0x02 1000)) 0x02 = 0)
   \<and> (\<exists>s. slots_of_type
              (fst (setSensorValue (fst (setSensorValue example_engine idle_ports 0x03 1000))
                      idle_ports 0x03 5000)) 0x03 = [s]
          \<and> value_u16 s = 5000
          \<and> findSensorIndex
              (fst (setSensorValue (fst (setSensorValue example_engine idle_ports 0x03 1000))
                      idle_ports 0x03 5000)) 0x03 = 2
          \<and> findSensorIndex (fst (setSensorValue example_engine idle_ports 0x03 1000)) 0x03 = 2)"
proof -
  have pub: "set (registered example_ops) \<subseteq> set public_sensor_types"
    by (simp add: example_ops_def public_sensor_types_def)
  have T2: "0x02 \<in> set public_sensor_types" and T3: "0x03 \<in> set public_sensor_types"
    by (simp_all add: public_sensor_types_def IBUS_SENSOR_RPM_def IBUS_SENSOR_EXTERNAL_VOLTAGE_def)
  have w2: "snd (setSensorValue example_engine idle_ports 0x02 1000) = idle_ports"
    and w3: "snd (setSensorValue example_engine idle_ports 0x03 1000) = idle_ports"
    by (simp_all add: setSensorValue_quiet example_engine_def)
  have j2: "findSensorIndex (fst (setSensorValue example_engine idle_ports 0x02 1000)) 0x02 = 0"
    and j3: "findSensorIndex (fst (setSensorValue example_engine idle_ports 0x03 1000)) 0x03 = 2"
    by (simp_all add: setSensorValue_eval engine_defs findSensorIndex_def findSensorIndex_loop_4
        Let_def)
  from C5_register_twice [OF run_example_ops pub T2 prod.collapse [symmetric] prod.collapse [symmetric],
      of 1000 5000]
    C5_register_twice [OF run_example_ops pub T3 prod.collapse [symmetric] prod.collapse [symmetric],
      of 1000 5000]
    run_example_ops j2 j3
  show ?thesis unfolding w2 w3 by auto
qed

text \<open>
  C6. If all four slots are occupied and none of them has the type \<open>T\<close>, then
  \<open>setSensorValue T v\<close> leaves the engine, and so every slot of the registry, as it was:
  there are still four occupied slots. With the diagnostic output off the ports are
  left as they were, too.
\<close>

theorem C6_registry_full_noop:
  assumes wf: "wf e" and full: "\<forall>s\<in>set (sensors e). hasValue s \<and> type s \<noteq> T"
  shows "fst (setSensorValue e w T v) = e
         \<and> length (filter hasValue (sensors (fst (setSensorValue e w T v)))) = MAX_SENSORS
         \<and> (\<not> debug e \<longrightarrow> snd (setSensorValue e w T v) = w)"
proof -
  from wf_sensors [OF wf] obtain s0 s1 s2 s3 where ss: "sensors e = [s0, s1, s2, s3]" by blast
  with full have "fst (setSensorValue e w T v) = e"
    by (simp add: setSensorValue_def findSensorIndex_def findSensorIndex_loop_4
        setSensorValue_loop_4 Let_def)
  moreover from full ss have "length (filter hasValue (sensors e)) = MAX_SENSORS"
    by (simp add: MAX_SENSORS_def)
  ultimately show ?thesis by (simp add: setSensorValue_quiet)
qed

text \<open>
  On the full engine, registering the type \<open>0x05\<close> changes nothing.
\<close>

theorem C6_registry_full_noop_witness:
  "fst (setSensorValue full_engine idle_ports 0x05 7) = full_engine
   \<and> length (filter hasValue (sensors (fst (setSensorValue full_engine idle_ports 0x05 7)))) = 4
   \<and> snd (setSensorValue full_engine idle_ports 0x05 7) = idle_ports"
  using C6_registry_full_noop [of full_engine "0x05" idle_ports 7] by (simp add: engine_defs)

text \<open>
  C9. Every run \<open>ops\<close> of the public operations from a fresh engine ends in a state in
  which, for \<open>1 \<le> k \<le> 4\<close>, the \<open>k\<close>-th distinct sensor type registered during the run
  occupies slot \<open>k - 1\<close>, the slot that the handlers read for the bus address \<open>k\<close>. In
  that state every slot before an occupied slot is occupied. And however the run goes
  on (\<open>ops'\<close>), a slot occupied now is occupied afterwards, at the same index and with
  the same type.
\<close>

theorem C9_address_assignment:
  "\<exists>e w. run ops (new_EveryIBus, w0) = Inr (e, w) \<and> wf e
     \<and> (\<forall>k. 1 \<le> k \<and> k \<le> MAX_SENSORS \<and> k \<le> length (first_distinct (registered ops)) \<longrightarrow>
            hasValue (sensors e ! (k - 1))
            \<and> type (sensors e ! (k - 1)) = first_distinct (registered ops) ! (k - 1)
            \<and> sensor_at (sensors e) (uint (of_nat k :: u8) - 1) = Inr (sensors e ! (k - 1)))
     \<and> (\<forall>i j. i < j \<and> j < MAX_SENSORS \<and> hasValue (sensors e ! j) \<longrightarrow> hasValue (sensors e ! i))
     \<and> (\<forall>ops'. \<exists>e' w'. run (ops @ ops') (new_EveryIBus, w0) = Inr (e', w')
            \<and> (\<forall>i < MAX_SENSORS. hasValue (sensors e ! i) \<longrightarrow>
                  hasValue (sensors e' ! i) \<and> type (sensors e' ! i) = type (sensors e ! i)))"
proof -
  let ?fd = "first_distinct (registered ops)"
  from run_registry [of ops w0] obtain e w occ
    where run: "run ops (new_EveryIBus, w0) = Inr (e, w)"
      and ss: "sensors e = registry_of occ" and len: "length occ \<le> MAX_SENSORS"
      and occ: "\<forall>s\<in>set occ. hasValue s"
      and tys: "map type occ = take MAX_SENSORS ?fd"
    by blast
  have wf: "wf e" using ss len by (simp add: wf_def registry_of_length)
  from tys have n: "length occ = min MAX_SENSORS (length ?fd)"
    by (metis length_map length_take min.commute)
  have ty_nth: "type (occ ! i) = ?fd ! i" if "i < length occ" for i
  proof -
    from that have "type (occ ! i) = map type occ ! i" by simp
    also have "\<dots> = ?fd ! i" using that n by (simp add: tys)
    finally show ?thesis .
  qed
  have kth: "hasValue (sensors e ! (k - 1)) \<and> type (sensors e ! (k - 1)) = ?fd ! (k - 1)
      \<and> sensor_at (sensors e) (uint (of_nat k :: u8) - 1) = Inr (sensors e ! (k - 1))"
    if k: "1 \<le> k \<and> k \<le> MAX_SENSORS \<and> k \<le> length ?fd" for k
  proof -
    from k n have lt: "k - 1 < length occ" by arith
    from k have lt4: "k - 1 < MAX_SENSORS" by arith
    from registry_of_hasValue [OF len occ lt4] lt ty_nth [OF lt]
    have "hasValue (sensors e ! (k - 1)) \<and> type (sensors e ! (k - 1)) = ?fd ! (k - 1)"
      by (simp add: ss registry_of_nth)
    moreover from k have "uint (of_nat k :: u8) - 1 = int (k - 1)"
      by (simp add: address_of_nat MAX_SENSORS_def)
    then have "sensor_at (sensors e) (uint (of_nat k :: u8) - 1) = Inr (sensors e ! (k - 1))"
      using lt4 wf by (simp add: sensor_at_def wf_def)
    ultimately show ?thesis by simp
  qed
  have prefix: "hasValue (sensors e ! i)" if "i < j \<and> j < MAX_SENSORS \<and> hasValue (sensors e ! j)" for i j
  proof -
    from that registry_of_hasValue [OF len occ, of j] have "j < length occ" by (simp add: ss)
    with that have "i < length occ" "i < MAX_SENSORS" by simp_all
    with registry_of_hasValue [OF len occ, of i] show ?thesis by (simp add: ss)
  qed
  have stable: "\<exists>e' w'. run (ops @ ops') (new_EveryIBus, w0) = Inr (e', w')
            \<and> (\<forall>i < MAX_SENSORS. hasValue (sensors e ! i) \<longrightarrow>
                  hasValue (sensors e' ! i) \<and> type (sensors e' ! i) = type (sensors e ! i))" for ops'
  proof -
    let ?fd' = "first_distinct (registered (ops @ ops'))"
    from run_registry [of "ops @ ops'" w0] obtain e' w' occ'
      where run': "run (ops @ ops') (new_EveryIBus, w0) = Inr (e', w')"
        and ss': "sensors e' = registry_of occ'" and len': "length occ' \<le> MAX_SENSORS"
        and occ': "\<forall>s\<in>set occ'. hasValue s"
        and tys': "map type occ' = take MAX_SENSORS ?fd'"
      by blast
    from first_distinct_append [of "registered ops" "registered ops'"]
    obtain zs where fd': "?fd' = ?fd @ zs" by (auto simp: registered_append)
    from tys' have n': "length occ' = min MAX_SENSORS (length ?fd')"
      by (metis length_map length_take min.commute)
    have "hasValue (sensors e' ! i) \<and> type (sensors e' ! i) = type (sensors e ! i)"
      if i: "i < MAX_SENSORS" and h: "hasValue (sensors e ! i)" for i
    proof -
      from h registry_of_hasValue [OF len occ i] have lt: "i < length occ" by (simp add: ss)
      with n n' fd' have lt': "i < length occ'" by simp
      have "type (occ' ! i) = map type occ' ! i" using lt' by simp
      also have "\<dots> = ?fd' ! i" using lt' n' by (simp add: tys')
      also have "\<dots> = ?fd ! i" using lt n by (simp add: fd' nth_append)
      also have "\<dots> = type (occ ! i)" using ty_nth [OF lt] by simp
      finally have "type (occ' ! i) = type (occ ! i)" .
      with registry_of_hasValue [OF len' occ' i] lt lt'
      show ?thesis by (simp add: ss ss' registry_of_nth)
    qed
    with run' show ?thesis by blast
  qed
  from run wf kth prefix stable show ?thesis by blast
qed

lemma fd_example:
  "first_distinct (registered (example_ops @ [SetSensorValue 0x02 5000, SetSensorValue 0x03 1241]))
     = [0x02, 0x01, 0x03]"
  by (simp add: example_ops_def first_distinct_def IBUS_SENSOR_RPM_def IBUS_SENSOR_TEMPERATURE_def)

text \<open>
  After registering RPM, temperature, RPM again and external voltage, the slots 0, 1
  and 2 hold the types \<open>0x02\<close>, \<open>0x01\<close> and \<open>0x03\<close>; address 3 reads slot 2, and slot 2
  still holds \<open>0x03\<close> after one more registration and one more step.
\<close>

theorem C9_address_assignment_witness:
  "\<exists>e w. run (example_ops @ [SetSensorValue 0x02 5000, SetSensorValue 0x03 1241])
            (new_EveryIBus, idle_ports) = Inr (e, w)
     \<and> hasValue (sensors e ! 0) \<and> type (sensors e ! 0) = 0x02
     \<and> hasValue (sensors e ! 1) \<and> type (sensors e ! 1) = 0x01
     \<and> hasValue (sensors e ! 2) \<and> type (sensors e ! 2) = 0x03
     \<and> sensor_at (sensors e) (uint (3 :: u8) - 1) = Inr (sensors e ! 2)
     \<and> (\<exists>e' w'. run ((example_ops @ [SetSensorValue 0x02 5000, SetSensorValue 0x03 1241])
                       @ [SetSensorValue 0x07 1, Update])
            (new_EveryIBus, idle_ports) = Inr (e', w')
          \<and> hasValue (sensors e' ! 2) \<and> type (sensors e' ! 2) = 0x03)"
proof -
  let ?ops = "example_ops @ [SetSensorValue 0x02 5000, SetSensorValue 0x03 1241]"
  from C9_address_assignment [of ?ops idle_ports] obtain e w
    where run: "run ?ops (new_EveryIBus, idle_ports) = Inr (e, w)"
      and kth: "\<And>k. 1 \<le> k \<and> k \<le> MAX_SENSORS \<and> k \<le> length (first_distinct (registered ?ops)) \<Longrightarrow>
            hasValue (sensors e ! (k - 1))
            \<and> type (sensors e ! (k - 1)) = first_distinct (registered ?ops) ! (k - 1)
            \<and> sensor_at (sensors e) (uint (of_nat k :: u8) - 1) = Inr (sensors e ! (k - 1))"
      and stable: "\<And>ops'. \<exists>e' w'. run (?ops @ ops') (new_EveryIBus, idle_ports) = Inr (e', w')
            \<and> (\<forall>i < MAX_SENSORS. hasValue (sensors e ! i) \<longrightarrow>
                  hasValue (sensors e' ! i) \<and> type (sensors e' ! i) = type (sensors e ! i))"
    by blast
  from kth [of 1] kth [of 2] kth [of 3]
  have slots: "hasValue (sensors e ! 0) \<and> type (sensors e ! 0) = 0x02
     \<and> hasValue (sensors e ! 1) \<and> type (sensors e ! 1) = 0x01
     \<and> hasValue (sensors e ! 2) \<and> type (sensors e ! 2) = 0x03
     \<and> sensor_at (sensors e) (uint (3 :: u8) - 1) = Inr (sensors e ! 2)"
    by (simp add: fd_example MAX_SENSORS_def)
  from stable [of "[SetSensorValue 0x07 1, Update]"] obtain e' w'
    where "run (?ops @ [SetSensorValue 0x07 1, Update]) (new_EveryIBus, idle_ports) = Inr (e', w')"
      and "\<forall>i < MAX_SENSORS. hasValue (sensors e ! i) \<longrightarrow>
                  hasValue (sensors e' ! i) \<and> type (sensors e' ! i) = type (sensors e ! i)"
    by blast
  with slots have "\<exists>e' w'. run (?ops @ [SetSensorValue 0x07 1, Update]) (new_EveryIBus, idle_ports)
            = Inr (e', w')
          \<and> hasValue (sensors e' ! 2) \<and> type (sensors e' ! 2) = 0x03"
    by (auto simp: MAX_SENSORS_def)
  with run slots show ?thesis by blast
qed

text \<open>
  C10. While no port is attached, \<open>update\<close> returns the engine and the ports as they
  are. A run from a fresh engine without \<open>Begin\<close> ends in a state with no port attached:
  both counters are zero and the discovered flag is false, one more \<open>update\<close> changes
  nothing, and no port has been written to, except that \<^verbatim>\<open>Serial\<close> may hold the
  diagnostic lines of the registrations when the run has switched the diagnostic output
  on.
\<close>

theorem C10_update_without_begin:
  "(serial e = None \<longrightarrow> update e w = Inr (e, w))
   \<and> ((\<forall>p. Begin p \<notin> set ops) \<longrightarrow>
        (\<exists>e' w'. run ops (new_EveryIBus, w0) = Inr (e', w') \<and> serial e' = None
           \<and> (\<forall>q. q \<noteq> Serial \<or> SetDebug True \<notin> set ops \<longrightarrow> tx (w' q) = tx (w0 q))
           \<and> packetCount e' = 0 \<and> responseCount e' = 0 \<and> \<not> anyDiscovered e'
           \<and> update e' w' = Inr (e', w')))"
proof -
  have "\<exists>e' w'. run ops (new_EveryIBus, w0) = Inr (e', w') \<and> serial e' = None
           \<and> (\<forall>q. q \<noteq> Serial \<or> SetDebug True \<notin> set ops \<longrightarrow> tx (w' q) = tx (w0 q))
           \<and> packetCount e' = 0 \<and> responseCount e' = 0 \<and> \<not> anyDiscovered e'
           \<and> update e' w' = Inr (e', w')" if "\<forall>p. Begin p \<notin> set ops"
  proof -
    from run_without_begin [OF that, of w0] obtain e' w'
      where "run ops (new_EveryIBus, w0) = Inr (e', w')" "serial e' = None"
        "\<forall>q. q \<noteq> Serial \<or> SetDebug True \<notin> set ops \<longrightarrow> tx (w' q) = tx (w0 q)"
        "packetCount e' = 0" "responseCount e' = 0" "\<not> anyDiscovered e'"
      by blast
    moreover from this have "update e' w' = Inr (e', w')" by (simp add: update_def)
    ultimately show ?thesis by blast
  qed
  then show ?thesis by (simp add: update_def)
qed

text \<open>
  A fresh engine ignores a valid DISCOVER frame in a port; so does an engine that has
  switched the diagnostic output on and registered a sensor but has not been attached,
  whichever port the frame is in.
\<close>

theorem C10_update_without_begin_witness:
  "update new_EveryIBus (idle_ports(Serial1 := \<lparr>rx = [0x04, 0x81, 0x7A, 0xFF], tx = []\<rparr>))
     = Inr (new_EveryIBus, idle_ports(Serial1 := \<lparr>rx = [0x04, 0x81, 0x7A, 0xFF], tx = []\<rparr>))
   \<and> (\<exists>e' w'. run [SetDebug True, SetSensorValue 0x02 4294, Receive Serial1 [0x04, 0x81, 0x7A, 0xFF],
                    Update, Receive Serial [0x04, 0x81, 0x7A, 0xFF], Update]
                 (new_EveryIBus, idle_ports) = Inr (e', w')
         \<and> serial e' = None \<and> tx (w' Serial1) = [] \<and> packetCount e' = 0 \<and> responseCount e' = 0
         \<and> \<not> anyDiscovered e' \<and> update e' w' = Inr (e', w'))"
proof -
  let ?ops = "[SetDebug True, SetSensorValue 0x02 4294, Receive Serial1 [0x04, 0x81, 0x7A, 0xFF],
               Update, Receive Serial [0x04, 0x81, 0x7A, 0xFF], Update]"
  let ?w = "idle_ports(Serial1 := \<lparr>rx = [0x04, 0x81, 0x7A, 0xFF], tx = []\<rparr>)"
  note c = C10_update_without_begin [of new_EveryIBus ?w ?ops idle_ports]
  have none: "serial new_EveryIBus = None" by (simp add: new_EveryIBus_def)
  from c none have first: "update new_EveryIBus ?w = Inr (new_EveryIBus, ?w)" by blast
  have "\<forall>p. Begin p \<notin> set ?ops" by simp
  with c obtain e' w' where "run ?ops (new_EveryIBus, idle_ports) = Inr (e', w')"
    "serial e' = None"
    "\<forall>q. q \<noteq> Serial \<or> SetDebug True \<notin> set ?ops \<longrightarrow> tx (w' q) = tx (idle_ports q)"
    "packetCount e' = 0" "responseCount e' = 0" "\<not> anyDiscovered e'"
    "update e' w' = Inr (e', w')"
    by blast
  moreover from this have "tx (w' Serial1) = []" by (simp add: idle_ports_def)
  ultimately show ?thesis using first by blast
qed

end
